theory Spec2Isabelle
  imports Complex_Main
begin

section \<open>Data model\<close>

text \<open>
  The three tables of the store, one record per model class. Integer columns are Python
  integers, hence \<open>int\<close>: that a \<open>PositiveIntegerField\<close> stays non-negative is a property
  to prove, not a property of the type. Field names that clash across classes (or with a
  HOL constant) carry the class as a prefix.
\<close>

record book =
  book_id :: int
  name :: string
  author :: string
  description :: "string option"
  book_user :: int
  price :: int
  stock :: int

record cart_model =
  cart_id :: int
  cart_user :: int
  total_price :: int
  total_quantity :: int
  is_ordered :: bool

record cart_items =
  item_id :: int
  item_cart :: int
  item_book :: int
  quantity :: int
  item_price :: int

text \<open>
  Modelled from the spec: the account record (\<open>user/models.py\<close>, the class \<open>CustomUser\<close>,
  is not among the sources). Section 3 of the specification lists its fields.
\<close>

record custom_user =
  user_id :: int
  email :: string
  username :: string
  password :: string
  is_verified :: bool
  is_superuser :: bool

text \<open>
  The database: each table is the list of its rows in primary-key order (rows are appended
  with a key taken from the table's sequence), so that \<open>.first()\<close> and iteration over a
  query set follow the list.
\<close>

record db =
  Book_table :: "book list"
  CartModel_table :: "cart_model list"
  CartItems_table :: "cart_items list"
  Book_seq :: int
  CartModel_seq :: int
  CartItems_seq :: int

section \<open>Exceptions and responses\<close>

datatype exn =
  DoesNotExist
  | MultipleObjectsReturned
  | ValueError
  | IntegrityError
  | Http404
  | ValidationError
  | TypeError
  | OverflowError

text \<open>
  A response body is JSON. \<open>JErr e\<close> stands for the framework's text of an exception:
  \<open>str(e)\<close>, which the handlers copy into the body of a 500 response, or the error detail
  of a validation that failed.
\<close>

datatype jval =
  JNull
  | JBool bool
  | JInt int
  | JStr string
  | JErr exn
  | JList "jval list"
  | JObj "(string \<times> jval) list"

record response =
  data :: jval
  status_code :: nat

definition Response :: "jval \<Rightarrow> nat \<Rightarrow> response" where
  "Response d s = \<lparr>data = d, status_code = s\<rparr>"

abbreviation HTTP_200_OK :: nat where "HTTP_200_OK \<equiv> 200"
abbreviation HTTP_201_CREATED :: nat where "HTTP_201_CREATED \<equiv> 201"
abbreviation HTTP_204_NO_CONTENT :: nat where "HTTP_204_NO_CONTENT \<equiv> 204"
abbreviation HTTP_400_BAD_REQUEST :: nat where "HTTP_400_BAD_REQUEST \<equiv> 400"
abbreviation HTTP_403_FORBIDDEN :: nat where "HTTP_403_FORBIDDEN \<equiv> 403"
abbreviation HTTP_404_NOT_FOUND :: nat where "HTTP_404_NOT_FOUND \<equiv> 404"
abbreviation HTTP_500_INTERNAL_SERVER_ERROR :: nat where "HTTP_500_INTERNAL_SERVER_ERROR \<equiv> 500"

text \<open>Decimal text of an integer, for the f-strings that interpolate a stock figure.\<close>

fun str_nat :: "nat \<Rightarrow> string" where
  "str_nat n = (if n < 10 then [char_of (48 + n)] else str_nat (n div 10) @ [char_of (48 + n mod 10)])"

definition str_int :: "int \<Rightarrow> string" where
  "str_int i = (if i < 0 then CHR ''-'' # str_nat (nat (- i)) else str_nat (nat i))"

section \<open>Queries and saves\<close>

text \<open>\<open>Model.objects.get(...)\<close> on the rows that match: exactly one row, or an exception.\<close>

fun objects_get :: "'a list \<Rightarrow> exn + 'a" where
  "objects_get [] = Inl DoesNotExist"
| "objects_get [x] = Inr x"
| "objects_get (x # y # zs) = Inl MultipleObjectsReturned"

text \<open>\<open>QuerySet.first()\<close>: the first row in primary-key order, or \<open>None\<close>.\<close>

fun first :: "'a list \<Rightarrow> 'a option" where
  "first [] = None"
| "first (x # xs) = Some x"

text \<open>
  The right-hand side of an exact lookup on a foreign key. \<open>filter(cart=c)\<close> with a model
  instance selects the rows that reference it (\<open>cart_lines\<close>). With a query set that has
  not been sliced to one row the lookup raises \<open>ValueError\<close> ("The QuerySet value for an
  exact lookup must be limited to one result using slicing."), whatever the query set
  holds. The models use \<open>PositiveBigIntegerField\<close>, so the framework is recent enough for
  this rule; it raises when the filter is built or, in older releases, when the query is
  first run, in both cases before a row is read.
\<close>

datatype 'a lookup_value = Instance 'a | QuerySet "'a list"

definition cart_lines :: "db \<Rightarrow> cart_model \<Rightarrow> cart_items list" where
  "cart_lines d c = filter (\<lambda>i. item_cart i = cart_id c) (CartItems_table d)"

definition CartItems_filter_cart :: "db \<Rightarrow> cart_model lookup_value \<Rightarrow> exn + cart_items list" where
  "CartItems_filter_cart d v =
     (case v of
        Instance c \<Rightarrow> Inr (cart_lines d c)
      | QuerySet cs \<Rightarrow> Inl ValueError)"

definition active_carts :: "db \<Rightarrow> custom_user \<Rightarrow> cart_model list" where
  "active_carts d u = filter (\<lambda>c. cart_user c = user_id u \<and> \<not> is_ordered c) (CartModel_table d)"

definition Book_get :: "db \<Rightarrow> int \<Rightarrow> book option" where
  "Book_get d i = find (\<lambda>b. book_id b = i) (Book_table d)"

text \<open>
  \<open>instance.save()\<close> on a row that exists: the row with that primary key is overwritten.
  A \<open>PositiveIntegerField\<close> or \<open>PositiveBigIntegerField\<close> column carries the check
  \<open>column >= 0\<close> in the database, so writing a negative value raises and writes nothing.
  Every write is committed when it is made: the handlers open no transaction, so what a
  handler has written stays written whatever it answers afterwards. The upper bound of
  an integer column depends on the database and is not modelled.
\<close>

definition Book_save :: "db \<Rightarrow> book \<Rightarrow> exn + db" where
  "Book_save d b =
     (if price b < 0 \<or> stock b < 0 then Inl IntegrityError
      else Inr (d\<lparr>Book_table := map (\<lambda>x. if book_id x = book_id b then b else x) (Book_table d)\<rparr>))"

definition CartModel_save :: "db \<Rightarrow> cart_model \<Rightarrow> exn + db" where
  "CartModel_save d c =
     (if total_price c < 0 \<or> total_quantity c < 0 then Inl IntegrityError
      else Inr (d\<lparr>CartModel_table := map (\<lambda>x. if cart_id x = cart_id c then c else x) (CartModel_table d)\<rparr>))"

definition CartItems_save :: "db \<Rightarrow> cart_items \<Rightarrow> exn + db" where
  "CartItems_save d i =
     (if quantity i < 0 \<or> item_price i < 0 then Inl IntegrityError
      else Inr (d\<lparr>CartItems_table := map (\<lambda>x. if item_id x = item_id i then i else x) (CartItems_table d)\<rparr>))"

text \<open>
  \<open>get_or_create\<close>: the one matching row, or a new row with the model's defaults, which is
  inserted (and committed) at once; more than one match raises.
\<close>

definition CartModel_get_or_create :: "db \<Rightarrow> custom_user \<Rightarrow> exn + (cart_model \<times> bool \<times> db)" where
  "CartModel_get_or_create d u =
     (case objects_get (active_carts d u) of
        Inr c \<Rightarrow> Inr (c, False, d)
      | Inl DoesNotExist \<Rightarrow>
          (let c = \<lparr>cart_id = CartModel_seq d, cart_user = user_id u, total_price = 0,
                    total_quantity = 0, is_ordered = False\<rparr>
           in Inr (c, True, d\<lparr>CartModel_table := CartModel_table d @ [c],
                               CartModel_seq := CartModel_seq d + 1\<rparr>))
      | Inl e \<Rightarrow> Inl e)"

definition CartItems_get_or_create :: "db \<Rightarrow> cart_model \<Rightarrow> book \<Rightarrow> exn + (cart_items \<times> bool \<times> db)" where
  "CartItems_get_or_create d c b =
     (case objects_get (filter (\<lambda>i. item_cart i = cart_id c \<and> item_book i = book_id b) (CartItems_table d)) of
        Inr i \<Rightarrow> Inr (i, False, d)
      | Inl DoesNotExist \<Rightarrow>
          (let i = \<lparr>item_id = CartItems_seq d, item_cart = cart_id c, item_book = book_id b,
                    quantity = 0, item_price = 0\<rparr>
           in Inr (i, True, d\<lparr>CartItems_table := CartItems_table d @ [i],
                               CartItems_seq := CartItems_seq d + 1\<rparr>))
      | Inl e \<Rightarrow> Inl e)"

text \<open>\<open>aggregate(Sum(...))\<close> is \<open>None\<close> over no rows; \<open>x or 0\<close> turns \<open>None\<close> (and 0) into 0.\<close>

definition aggregate_Sum :: "('a \<Rightarrow> int) \<Rightarrow> 'a list \<Rightarrow> int option" where
  "aggregate_Sum f xs = (if xs = [] then None else Some (sum_list (map f xs)))"

definition or_0 :: "int option \<Rightarrow> int" where
  "or_0 v = (case v of None \<Rightarrow> 0 | Some n \<Rightarrow> (if n = 0 then 0 else n))"

text \<open>
  \<open>CartSerializer(cart).data\<close>. The serializer also declares a read-only field \<open>items\<close>,
  but \<open>CartModel\<close> has no attribute of that name (the foreign key sets no
  \<open>related_name\<close>), and a read-only field whose attribute is missing is left out.
\<close>

definition CartSerializer :: "cart_model \<Rightarrow> jval" where
  "CartSerializer c =
     JObj [(''id'', JInt (cart_id c)), (''user'', JInt (cart_user c)),
           (''total_price'', JInt (total_price c)), (''total_quantity'', JInt (total_quantity c)),
           (''is_ordered'', JBool (is_ordered c))]"

section \<open>Cart views\<close>

text \<open>
  A field of the JSON body of a cart POST, as \<open>request.data.get(k)\<close> returns it. The
  handler does not check its type, so it may be any JSON value: \<open>PNone\<close> for a key that
  is absent (or null), a boolean, an integer, a number with a fraction or an exponent
  (a Python float), a string, or an array or object, of which the handler can only see
  whether it is empty (\<open>PCompound True\<close> is a non-empty one). The body itself is a JSON
  object.
\<close>

datatype 'f py_value =
  PNone
  | PBool bool
  | PInt int
  | PFloat 'f
  | PStr string
  | PCompound bool

record 'f cart_request =
  req_book_id :: "'f py_value"
  req_quantity :: "'f py_value"

text \<open>
  What the Python runtime does with a float, and \<open>int()\<close> of a string, are taken as given:
  \<open>'f\<close> is the type of floats, \<open>fl_nonzero x\<close> is the truth value of \<open>x\<close>, \<open>fl_less n x\<close> is
  \<open>n < x\<close> for an integer \<open>n\<close>, \<open>fl_add n x\<close> and \<open>fl_mul n x\<close> are \<open>n + x\<close> and \<open>n * x\<close>
  (rounded as the machine rounds; \<open>OverflowError\<close> for an integer too large for a float),
  \<open>fl_int x\<close> is \<open>int(x)\<close> (the fraction dropped; an exception for an infinity or a NaN),
  and \<open>int_of_str s\<close> is \<open>int(s)\<close>, \<open>None\<close> where it raises \<open>ValueError\<close>.
\<close>

record 'f py_runtime =
  fl_nonzero :: "'f \<Rightarrow> bool"
  fl_less :: "int \<Rightarrow> 'f \<Rightarrow> bool"
  fl_add :: "int \<Rightarrow> 'f \<Rightarrow> exn + 'f"
  fl_mul :: "int \<Rightarrow> 'f \<Rightarrow> exn + 'f"
  fl_int :: "'f \<Rightarrow> exn + int"
  int_of_str :: "string \<Rightarrow> int option"

text \<open>Python's truth value: \<open>None\<close>, \<open>False\<close>, zero and what is empty are false.\<close>

definition truthy :: "'f py_runtime \<Rightarrow> 'f py_value \<Rightarrow> bool" where
  "truthy rt v =
     (case v of
        PNone \<Rightarrow> False
      | PBool t \<Rightarrow> t
      | PInt n \<Rightarrow> n \<noteq> 0
      | PFloat x \<Rightarrow> fl_nonzero rt x
      | PStr t \<Rightarrow> t \<noteq> []
      | PCompound nonempty \<Rightarrow> nonempty)"

text \<open>
  A value the handler computes with: an integer (a boolean is the integer 0 or 1) or a
  float. Comparing an integer with anything else, as line 83 does, raises \<open>TypeError\<close>.
\<close>

datatype 'f number = NInt int | NFloat 'f

definition as_number :: "'f py_value \<Rightarrow> 'f number option" where
  "as_number v =
     (case v of
        PBool t \<Rightarrow> Some (NInt (if t then 1 else 0))
      | PInt n \<Rightarrow> Some (NInt n)
      | PFloat x \<Rightarrow> Some (NFloat x)
      | _ \<Rightarrow> None)"

definition py_less :: "'f py_runtime \<Rightarrow> int \<Rightarrow> 'f number \<Rightarrow> bool" where
  "py_less rt n v = (case v of NInt m \<Rightarrow> n < m | NFloat x \<Rightarrow> fl_less rt n x)"

definition py_add :: "'f py_runtime \<Rightarrow> int \<Rightarrow> 'f number \<Rightarrow> exn + 'f number" where
  "py_add rt n v =
     (case v of
        NInt m \<Rightarrow> Inr (NInt (n + m))
      | NFloat x \<Rightarrow> (case fl_add rt n x of Inl e \<Rightarrow> Inl e | Inr y \<Rightarrow> Inr (NFloat y)))"

definition py_mul :: "'f py_runtime \<Rightarrow> int \<Rightarrow> 'f number \<Rightarrow> exn + 'f number" where
  "py_mul rt n v =
     (case v of
        NInt m \<Rightarrow> Inr (NInt (n * m))
      | NFloat x \<Rightarrow> (case fl_mul rt n x of Inl e \<Rightarrow> Inl e | Inr y \<Rightarrow> Inr (NFloat y)))"

text \<open>
  What an integer column stores for a value assigned to it: \<open>save()\<close> passes the value
  through \<open>int()\<close>, so a float loses its fraction.
\<close>

definition py_int :: "'f py_runtime \<Rightarrow> 'f number \<Rightarrow> exn + int" where
  "py_int rt v = (case v of NInt m \<Rightarrow> Inr m | NFloat x \<Rightarrow> fl_int rt x)"

text \<open>
  \<open>Book.objects.get(id=v)\<close>: the value is made an integer as for a column (a string through
  \<open>int()\<close>), and the book with that key is looked up; \<open>None\<close> matches no row.
\<close>

definition Book_lookup :: "db \<Rightarrow> int \<Rightarrow> exn + book" where
  "Book_lookup d i = (case Book_get d i of None \<Rightarrow> Inl DoesNotExist | Some b \<Rightarrow> Inr b)"

definition Book_objects_get :: "'f py_runtime \<Rightarrow> db \<Rightarrow> 'f py_value \<Rightarrow> exn + book" where
  "Book_objects_get rt d v =
     (case v of
        PNone \<Rightarrow> Inl DoesNotExist
      | PBool t \<Rightarrow> Book_lookup d (if t then 1 else 0)
      | PInt n \<Rightarrow> Book_lookup d n
      | PFloat x \<Rightarrow> (case fl_int rt x of Inl e \<Rightarrow> Inl e | Inr n \<Rightarrow> Book_lookup d n)
      | PStr t \<Rightarrow> (case int_of_str rt t of None \<Rightarrow> Inl ValueError | Some n \<Rightarrow> Book_lookup d n)
      | PCompound nonempty \<Rightarrow> Inl TypeError)"

definition msg :: "string \<Rightarrow> jval" where
  "msg m = JObj [(''message'', JStr m)]"

subsection \<open>\<open>CartsViews.get\<close>\<close>

definition CartsViews_get :: "db \<Rightarrow> custom_user \<Rightarrow> response" where
  "CartsViews_get d u =
     (case objects_get (active_carts d u) of
        Inr active_cart \<Rightarrow>
          Response (JObj [(''message'', JStr ''The active cart of the user is Fetched''),
                          (''status'', JStr ''success''),
                          (''cart'', CartSerializer active_cart)]) HTTP_200_OK
      | Inl DoesNotExist \<Rightarrow>
          Response (JObj [(''message'', JStr ''No active cart found for the user''),
                          (''status'', JStr ''error'')]) HTTP_404_NOT_FOUND
      | Inl e \<Rightarrow>
          Response (JObj [(''message'', JStr ''An unexpected error occurred''),
                          (''status'', JStr ''error''),
                          (''error'', JErr e)]) HTTP_500_INTERNAL_SERVER_ERROR)"

subsection \<open>\<open>CartsViews.post\<close> (add or update a line)\<close>

definition post_error :: "exn \<Rightarrow> response" where
  "post_error e =
     Response (JObj [(''message'', JStr ''An error occurred while processing the request.''),
                     (''status'', JStr ''error''),
                     (''error'', JErr e)]) HTTP_500_INTERNAL_SERVER_ERROR"

definition insufficient_stock :: "book \<Rightarrow> response" where
  "insufficient_stock b =
     Response (msg (''Insufficient stock. Only '' @ str_int (stock b) @ '' available.''))
       HTTP_400_BAD_REQUEST"

text \<open>
  Lines 99 to 117 of the handler: price the line, save it, recompute the totals of the
  cart from its lines, save the cart, answer. \<open>qty\<close> is the quantity the handler has
  assigned to the line; the line's row gets \<open>int(qty)\<close> and \<open>int(book.price * qty)\<close>.
\<close>

definition recompute_totals :: "db \<Rightarrow> cart_model \<Rightarrow> cart_model" where
  "recompute_totals d active_cart =
     active_cart\<lparr>total_quantity := or_0 (aggregate_Sum quantity (cart_lines d active_cart)),
                  total_price := or_0 (aggregate_Sum item_price (cart_lines d active_cart))\<rparr>"

definition store_line ::
  "'f py_runtime \<Rightarrow> db \<Rightarrow> cart_model \<Rightarrow> book \<Rightarrow> cart_items \<Rightarrow> 'f number \<Rightarrow> bool \<Rightarrow> response \<times> db" where
  "store_line rt d active_cart b cart_item qty created =
     (case py_mul rt (price b) qty of
        Inl e \<Rightarrow> (post_error e, d)
      | Inr line_price \<Rightarrow>
          (case py_int rt qty of
             Inl e \<Rightarrow> (post_error e, d)
           | Inr q \<Rightarrow>
               (case py_int rt line_price of
                  Inl e \<Rightarrow> (post_error e, d)
                | Inr p \<Rightarrow>
                    (case CartItems_save d (cart_item\<lparr>quantity := q, item_price := p\<rparr>) of
                       Inl e \<Rightarrow> (post_error e, d)
                     | Inr d1 \<Rightarrow>
                         (case CartModel_save d1 (recompute_totals d1 active_cart) of
                            Inl e \<Rightarrow> (post_error e, d1)
                          | Inr d2 \<Rightarrow>
                              (Response
                                 (JObj [(''message'',
                                           JStr (if \<not> created then ''Cart updated successfully''
                                                 else ''New cart created successfully'')),
                                        (''status'', JStr ''success''),
                                        (''cart'', CartSerializer (recompute_totals d1 active_cart))])
                                 (if \<not> created then HTTP_200_OK else HTTP_201_CREATED), d2))))))"

text \<open>The test of line 73: \<open>not book_id or not quantity\<close>.\<close>

definition not_given :: "'f py_runtime \<Rightarrow> 'f cart_request \<Rightarrow> bool" where
  "not_given rt r \<longleftrightarrow> \<not> truthy rt (req_book_id r) \<or> \<not> truthy rt (req_quantity r)"

definition CartsViews_post ::
  "'f py_runtime \<Rightarrow> db \<Rightarrow> custom_user \<Rightarrow> 'f cart_request \<Rightarrow> response \<times> db" where
  "CartsViews_post rt d u r =
     (if not_given rt r
      then (Response (msg ''book_id and quantity are required.'') HTTP_400_BAD_REQUEST, d)
      else
        (case Book_objects_get rt d (req_book_id r) of
           Inl DoesNotExist \<Rightarrow>
             (Response (msg ''Book does not exist in the database.'') HTTP_404_NOT_FOUND, d)
         | Inl e \<Rightarrow> (post_error e, d)
         | Inr b \<Rightarrow>
             (case as_number (req_quantity r) of
                None \<Rightarrow> (post_error TypeError, d)
              | Some qty \<Rightarrow>
                  if py_less rt (stock b) qty then (insufficient_stock b, d)
                  else
                    (case CartModel_get_or_create d u of
                       Inl e \<Rightarrow> (post_error e, d)
                     | Inr (active_cart, _, d1) \<Rightarrow>
                         (case CartItems_get_or_create d1 active_cart b of
                            Inl e \<Rightarrow> (post_error e, d1)
                          | Inr (cart_item, created, d2) \<Rightarrow>
                              if created
                              then store_line rt d2 active_cart b cart_item qty created
                              else
                                (case py_add rt (quantity cart_item) qty of
                                   Inl e \<Rightarrow> (post_error e, d2)
                                 | Inr new_quantity \<Rightarrow>
                                     if py_less rt (stock b) new_quantity
                                     then (insufficient_stock b, d2)
                                     else store_line rt d2 active_cart b cart_item new_quantity
                                            created))))))"

subsection \<open>\<open>CartsViewsByID.delete\<close> (remove a line)\<close>

text \<open>\<open>pk\<close> comes from the route \<open><int:pk>\<close>: a non-negative integer, false when 0.\<close>

definition CartItems_delete :: "db \<Rightarrow> cart_items \<Rightarrow> db" where
  "CartItems_delete d i = d\<lparr>CartItems_table := filter (\<lambda>x. item_id x \<noteq> item_id i) (CartItems_table d)\<rparr>"

definition CartsViewsByID_delete :: "db \<Rightarrow> custom_user \<Rightarrow> int \<Rightarrow> response \<times> db" where
  "CartsViewsByID_delete d u pk =
     (if pk \<noteq> 0 then
        (case first (active_carts d u) of
           None \<Rightarrow> (Response (msg ''No active cart found.'') HTTP_404_NOT_FOUND, d)
         | Some active_cart \<Rightarrow>
             (case first (filter (\<lambda>i. item_book i = pk \<and> item_cart i = cart_id active_cart)
                            (CartItems_table d)) of
                None \<Rightarrow> (Response (msg ''No such item found in the active cart.'') HTTP_404_NOT_FOUND, d)
              | Some cart_item \<Rightarrow>
                  (let d1 = CartItems_delete d cart_item
                   in case CartModel_save d1 (recompute_totals d1 active_cart) of
                        Inl e \<Rightarrow>
                          (Response (JObj [(''message'', JStr ''An unexpected error occurred.''),
                                           (''error'', JErr e)]) HTTP_500_INTERNAL_SERVER_ERROR, d1)
                      | Inr d2 \<Rightarrow> (Response (msg ''Item deleted successfully'') HTTP_204_NO_CONTENT, d2))))
      else (Response (msg ''Item ID is required.'') HTTP_400_BAD_REQUEST, d))"

section \<open>Order views\<close>

subsection \<open>\<open>OrderViews.get\<close>\<close>

definition OrderViews_get :: "db \<Rightarrow> custom_user \<Rightarrow> response" where
  "OrderViews_get d u =
     (let ordered_cart = filter (\<lambda>c. cart_user c = user_id u \<and> is_ordered c) (CartModel_table d)
      in if ordered_cart = []
         then Response (JObj [(''message'', JStr ''No order Found''), (''status'', JStr ''Error'')])
                HTTP_404_NOT_FOUND
         else Response (JObj [(''message'', JStr ''Order details fetched successfully.''),
                              (''data'', JList (map CartSerializer ordered_cart))]) HTTP_200_OK)"

subsection \<open>\<open>OrderViews.post\<close> (place an order)\<close>

definition order_error :: "exn \<Rightarrow> response" where
  "order_error e =
     Response (JObj [(''message'', JStr ''An error occurred during the ordering process.''),
                     (''error'', JErr e)]) HTTP_500_INTERNAL_SERVER_ERROR"

text \<open>
  The loop of lines 229 to 235. Each turn reads the line's book from the database, checks
  the line against its stock, and writes the decremented stock back before the next line
  is looked at. \<open>Inl\<close> is a return from inside the loop, with the database as it is then.
\<close>

fun place_loop :: "db \<Rightarrow> cart_items list \<Rightarrow> (response \<times> db) + db" where
  "place_loop d [] = Inr d"
| "place_loop d (item # rest) =
     (case Book_get d (item_book item) of
        None \<Rightarrow> Inl (order_error DoesNotExist, d)
      | Some b \<Rightarrow>
          if quantity item > stock b
          then Inl (Response (msg (''Insufficient stock for the book '' @ name b @ ''.''))
                      HTTP_400_BAD_REQUEST, d)
          else
            (case Book_save d (b\<lparr>stock := stock b - quantity item\<rparr>) of
               Inl e \<Rightarrow> Inl (order_error e, d)
             | Inr d1 \<Rightarrow> place_loop d1 rest))"

definition OrderViews_post :: "db \<Rightarrow> custom_user \<Rightarrow> response \<times> db" where
  "OrderViews_post d u =
     (case first (active_carts d u) of
        Some active_cart \<Rightarrow>
          (let cart_items = cart_lines d active_cart
           in if cart_items = []
              then (Response (msg ''The cart is empty.'') HTTP_400_BAD_REQUEST, d)
              else
                (case place_loop d cart_items of
                   Inl early \<Rightarrow> early
                 | Inr d1 \<Rightarrow>
                     (case CartModel_save d1 (active_cart\<lparr>is_ordered := True\<rparr>) of
                        Inl e \<Rightarrow> (order_error e, d1)
                      | Inr d2 \<Rightarrow>
                          (Response (JObj [(''message'', JStr ''The order placed''),
                                           (''status'', JStr ''Success'')]) HTTP_200_OK, d2))))
      | None \<Rightarrow> (Response (msg ''No active cart to order.'') HTTP_400_BAD_REQUEST, d))"

subsection \<open>\<open>OrderViewsByID.delete\<close> (cancel an order)\<close>

definition cancel_error :: "exn \<Rightarrow> response" where
  "cancel_error e =
     Response (JObj [(''message'', JStr ''An error occurred while cancelling the order.''),
                     (''error'', JErr e)]) HTTP_500_INTERNAL_SERVER_ERROR"

fun restore_loop :: "db \<Rightarrow> cart_items list \<Rightarrow> (response \<times> db) + db" where
  "restore_loop d [] = Inr d"
| "restore_loop d (item # rest) =
     (case Book_get d (item_book item) of
        None \<Rightarrow> Inl (cancel_error DoesNotExist, d)
      | Some b \<Rightarrow>
          (case Book_save d (b\<lparr>stock := stock b + quantity item\<rparr>) of
             Inl e \<Rightarrow> Inl (cancel_error e, d)
           | Inr d1 \<Rightarrow> restore_loop d1 rest))"

text \<open>\<open>queryset.delete()\<close> on carts: the rows go, and with them (cascade) their lines.\<close>

definition CartModel_delete_all :: "db \<Rightarrow> cart_model list \<Rightarrow> db" where
  "CartModel_delete_all d cs =
     d\<lparr>CartModel_table := filter (\<lambda>c. cart_id c \<notin> set (map cart_id cs)) (CartModel_table d),
       CartItems_table := filter (\<lambda>i. item_cart i \<notin> set (map cart_id cs)) (CartItems_table d)\<rparr>"

text \<open>
  The handler keeps the query set \<open>ordered_cart\<close> (it never takes \<open>.first()\<close>) and passes
  it to \<open>CartItems.objects.filter(cart=ordered_cart)\<close>.
\<close>

definition OrderViewsByID_delete :: "db \<Rightarrow> custom_user \<Rightarrow> int \<Rightarrow> response \<times> db" where
  "OrderViewsByID_delete d u pk =
     (let ordered_cart = filter (\<lambda>c. cart_user c = user_id u \<and> is_ordered c \<and> cart_id c = pk)
                           (CartModel_table d)
      in if ordered_cart = []
         then (Response (msg ''No order found to cancel.'') HTTP_404_NOT_FOUND, d)
         else
           (case CartItems_filter_cart d (QuerySet ordered_cart) of
              Inl e \<Rightarrow> (cancel_error e, d)
            | Inr cart_items \<Rightarrow>
                (case restore_loop d cart_items of
                   Inl early \<Rightarrow> early
                 | Inr d1 \<Rightarrow>
                     (Response (msg ''Order cancelled successfully.'') HTTP_200_OK,
                      CartModel_delete_all d1 ordered_cart))))"

section \<open>Catalog views\<close>

text \<open>
  The body of a catalog POST or PUT; a field that is absent is \<open>None\<close>. \<open>BookSerializer\<close>
  is a model serializer with \<open>user\<close> read-only, so the checks are those the columns of
  \<open>Book\<close> declare: \<open>name\<close> and \<open>author\<close> required, not blank, at most 255 characters,
  \<open>name\<close> unique (among the other books on update), \<open>price\<close> and \<open>stock\<close> required and
  not negative, \<open>description\<close> optional. The framework's trimming of white space and the
  backend's upper bound on an integer column are not modelled.
\<close>

record book_payload =
  p_name :: "string option"
  p_author :: "string option"
  p_description :: "string option"
  p_price :: "int option"
  p_stock :: "int option"

definition BookSerializer_is_valid :: "db \<Rightarrow> int option \<Rightarrow> book_payload \<Rightarrow> bool" where
  "BookSerializer_is_valid d inst p =
     (case (p_name p, p_author p, p_price p, p_stock p) of
        (Some n, Some a, Some pr, Some st) \<Rightarrow>
          n \<noteq> [] \<and> length n \<le> 255 \<and> a \<noteq> [] \<and> length a \<le> 255 \<and> 0 \<le> pr \<and> 0 \<le> st
          \<and> \<not> list_ex (\<lambda>b. name b = n \<and> Some (book_id b) \<noteq> inst) (Book_table d)
      | _ \<Rightarrow> False)"

definition BookSerializer :: "book \<Rightarrow> jval" where
  "BookSerializer b =
     JObj [(''id'', JInt (book_id b)), (''name'', JStr (name b)), (''author'', JStr (author b)),
           (''description'', (case description b of None \<Rightarrow> JNull | Some t \<Rightarrow> JStr t)),
           (''user'', JInt (book_user b)), (''price'', JInt (price b)), (''stock'', JInt (stock b))]"

definition permission_denied :: response where
  "permission_denied =
     Response (JObj [(''error'', JStr ''You do not have permission to perform this action.'')])
       HTTP_403_FORBIDDEN"

definition invalid_data :: response where
  "invalid_data = Response (JObj [(''error'', JErr ValidationError)]) HTTP_400_BAD_REQUEST"

subsection \<open>\<open>BookViewset.create\<close>\<close>

definition BookViewset_create :: "db \<Rightarrow> custom_user \<Rightarrow> book_payload \<Rightarrow> response \<times> db" where
  "BookViewset_create d u p =
     (if \<not> is_superuser u then (permission_denied, d)
      else
        (case (p_name p, p_author p, p_price p, p_stock p) of
           (Some n, Some a, Some pr, Some st) \<Rightarrow>
             if BookSerializer_is_valid d None p
             then
               (let b = \<lparr>book_id = Book_seq d, name = n, author = a, description = p_description p,
                         book_user = user_id u, price = pr, stock = st\<rparr>
                in (Response (JObj [(''message'', JStr ''Book created successfully''),
                                    (''status'', JStr ''Success''),
                                    (''data'', BookSerializer b)]) HTTP_201_CREATED,
                    d\<lparr>Book_table := Book_table d @ [b], Book_seq := Book_seq d + 1\<rparr>))
             else (invalid_data, d)
         | _ \<Rightarrow> (invalid_data, d)))"

subsection \<open>\<open>BookViewset.update\<close>\<close>

text \<open>
  \<open>get_object()\<close> raises the framework's \<open>Http404\<close> for a book that is absent. The handler
  catches \<open>rest_framework.exceptions.NotFound\<close>, a different class, so the exception
  reaches \<open>except Exception\<close>.
\<close>

definition BookViewset_update :: "db \<Rightarrow> custom_user \<Rightarrow> int \<Rightarrow> book_payload \<Rightarrow> response \<times> db" where
  "BookViewset_update d u pk p =
     (if \<not> is_superuser u then (permission_denied, d)
      else
        (case Book_get d pk of
           None \<Rightarrow> (Response (JObj [(''error'', JErr Http404)]) HTTP_500_INTERNAL_SERVER_ERROR, d)
         | Some book \<Rightarrow>
             (case (p_name p, p_author p, p_price p, p_stock p) of
                (Some n, Some a, Some pr, Some st) \<Rightarrow>
                  if BookSerializer_is_valid d (Some (book_id book)) p
                  then
                    (let b = book\<lparr>name := n, author := a,
                                  description := (case p_description p of None \<Rightarrow> description book
                                                  | Some t \<Rightarrow> Some t),
                                  price := pr, stock := st\<rparr>
                     in case Book_save d b of
                          Inl e \<Rightarrow> (Response (JObj [(''error'', JErr e)]) HTTP_500_INTERNAL_SERVER_ERROR, d)
                        | Inr d1 \<Rightarrow>
                            (Response (JObj [(''message'', JStr ''Book updated successfully''),
                                             (''status'', JStr ''Success''),
                                             (''data'', BookSerializer b)]) HTTP_200_OK, d1))
                  else (invalid_data, d)
              | _ \<Rightarrow> (invalid_data, d))))"

subsection \<open>\<open>BookViewset.destroy\<close>\<close>

text \<open>Deleting a book deletes (cascade) the cart lines that reference it.\<close>

definition Book_delete :: "db \<Rightarrow> book \<Rightarrow> db" where
  "Book_delete d b =
     d\<lparr>Book_table := filter (\<lambda>x. book_id x \<noteq> book_id b) (Book_table d),
       CartItems_table := filter (\<lambda>i. item_book i \<noteq> book_id b) (CartItems_table d)\<rparr>"

definition BookViewset_destroy :: "db \<Rightarrow> custom_user \<Rightarrow> int \<Rightarrow> response \<times> db" where
  "BookViewset_destroy d u pk =
     (if \<not> is_superuser u then (permission_denied, d)
      else
        (case Book_get d pk of
           None \<Rightarrow> (Response (JObj [(''error'', JErr Http404)]) HTTP_500_INTERNAL_SERVER_ERROR, d)
         | Some book \<Rightarrow> (Response JNull HTTP_204_NO_CONTENT, Book_delete d book)))"

section \<open>Login\<close>

record login_request =
  req_email :: "string option"
  req_password :: "string option"

text \<open>
  \<open>UserLoginSerializer\<close>: an \<open>EmailField\<close> and a \<open>CharField\<close>, both required and not blank,
  then the serializer's own \<open>validate\<close>. \<open>email_ok\<close> is the framework's test of the format
  of an email address. The result is \<open>validated_data\<close>, or \<open>None\<close> when \<open>is_valid()\<close> is false.
\<close>

definition UserLoginSerializer_validate :: "string \<times> string \<Rightarrow> (string \<times> string) option" where
  "UserLoginSerializer_validate v =
     (case v of (e, p) \<Rightarrow> if e = [] then None else if p = [] then None else Some (e, p))"

definition UserLoginSerializer_is_valid ::
  "(string \<Rightarrow> bool) \<Rightarrow> login_request \<Rightarrow> (string \<times> string) option" where
  "UserLoginSerializer_is_valid email_ok r =
     (case (req_email r, req_password r) of
        (Some e, Some p) \<Rightarrow>
          if e \<noteq> [] \<and> email_ok e \<and> p \<noteq> [] then UserLoginSerializer_validate (e, p) else None
      | _ \<Rightarrow> None)"

text \<open>
  Modelled from the spec: the credential check behind \<open>authenticate(email=, password=)\<close>
  (the user model and its manager, \<open>user/models.py\<close>, are not among the sources): the
  account with that email, if the password matches it; \<open>check_password\<close> compares a
  password with the stored hash.
\<close>

definition authenticate ::
  "(string \<Rightarrow> string \<Rightarrow> bool) \<Rightarrow> custom_user list \<Rightarrow> string \<Rightarrow> string \<Rightarrow> custom_user option" where
  "authenticate check_password users e p =
     (case find (\<lambda>u. email u = e) users of
        None \<Rightarrow> None
      | Some u \<Rightarrow> if check_password p (password u) then Some u else None)"

text \<open>\<open>for_user\<close> issues the pair of tokens (refresh, access) of \<open>RefreshToken.for_user\<close>.\<close>

definition LoginUser_post ::
  "(string \<Rightarrow> bool) \<Rightarrow> (string \<Rightarrow> string \<Rightarrow> bool) \<Rightarrow> (custom_user \<Rightarrow> string \<times> string)
     \<Rightarrow> custom_user list \<Rightarrow> login_request \<Rightarrow> response" where
  "LoginUser_post email_ok check_password for_user users r =
     (case UserLoginSerializer_is_valid email_ok r of
        Some (e, p) \<Rightarrow>
          (case authenticate check_password users e p of
             Some user \<Rightarrow>
               Response (JObj [(''message'', JStr ''Login successful!''),
                               (''status'', JStr ''success''),
                               (''data'', JObj [(''email'', JStr e)]),
                               (''refresh'', JStr (fst (for_user user))),
                               (''access'', JStr (snd (for_user user)))]) HTTP_200_OK
           | None \<Rightarrow>
               Response (JObj [(''message'', JStr ''Login failed''),
                               (''error'', JStr ''Invalid email or password'')])
                 HTTP_400_BAD_REQUEST)
      | None \<Rightarrow>
          Response (JObj [(''message'', JStr ''Unexpected error occurred''),
                          (''status'', JStr ''error''),
                          (''error'', JErr ValidationError)]) HTTP_400_BAD_REQUEST)"

section \<open>Well-formed databases\<close>

text \<open>
  What the database itself guarantees, and what the handlers keep true. Primary keys are
  unique and below the table's sequence; every stored row satisfies the checks of its
  \<open>Positive...\<close> columns; and a cart has at most one line per book, since lines are made
  by \<open>get_or_create(cart=, book=)\<close> only.
\<close>

definition keys_ok :: "db \<Rightarrow> bool" where
  "keys_ok d \<longleftrightarrow>
     distinct (map book_id (Book_table d)) \<and>
     list_all (\<lambda>b. book_id b < Book_seq d) (Book_table d) \<and>
     distinct (map cart_id (CartModel_table d)) \<and>
     list_all (\<lambda>c. cart_id c < CartModel_seq d) (CartModel_table d) \<and>
     distinct (map item_id (CartItems_table d)) \<and>
     list_all (\<lambda>i. item_id i < CartItems_seq d) (CartItems_table d)"

definition checks_hold :: "db \<Rightarrow> bool" where
  "checks_hold d \<longleftrightarrow>
     list_all (\<lambda>b. 0 \<le> price b \<and> 0 \<le> stock b) (Book_table d) \<and>
     list_all (\<lambda>c. 0 \<le> total_price c \<and> 0 \<le> total_quantity c) (CartModel_table d) \<and>
     list_all (\<lambda>i. 0 \<le> quantity i \<and> 0 \<le> item_price i) (CartItems_table d)"

definition lines_unique :: "db \<Rightarrow> bool" where
  "lines_unique d \<longleftrightarrow> distinct (map (\<lambda>i. (item_cart i, item_book i)) (CartItems_table d))"

definition db_ok :: "db \<Rightarrow> bool" where
  "db_ok d \<longleftrightarrow> keys_ok d \<and> checks_hold d \<and> lines_unique d"

definition stock_nonneg :: "db \<Rightarrow> bool" where
  "stock_nonneg d \<longleftrightarrow> list_all (\<lambda>b. 0 \<le> stock b) (Book_table d)"

definition empty_db :: db where
  "empty_db = \<lparr>Book_table = [], CartModel_table = [], CartItems_table = [],
               Book_seq = 1, CartModel_seq = 1, CartItems_seq = 1\<rparr>"

section \<open>A runtime for the examples\<close>

text \<open>
  Floats as the rationals they denote, with exact sums and products, and \<open>int()\<close> of a
  string of decimal digits with an optional minus sign. This is what Python computes
  whenever the floats involved and the results are floats without rounding, as for 1.5,
  100 * 1.5 = 150.0 and the other values the examples use.
\<close>

fun decimal :: "string \<Rightarrow> nat \<Rightarrow> nat option" where
  "decimal [] acc = Some acc"
| "decimal (c # cs) acc =
     (if 48 \<le> (of_char c :: nat) \<and> (of_char c :: nat) \<le> 57
      then decimal cs (10 * acc + (of_char c - 48)) else None)"

definition parse_int :: "string \<Rightarrow> int option" where
  "parse_int t =
     (case t of
        [] \<Rightarrow> None
      | c # cs \<Rightarrow>
          if c = CHR ''-'' then (if cs = [] then None else map_option (\<lambda>n. - int n) (decimal cs 0))
          else map_option int (decimal t 0))"

definition truncate :: "rat \<Rightarrow> int" where
  "truncate x = (if 0 \<le> x then \<lfloor>x\<rfloor> else - \<lfloor>- x\<rfloor>)"

definition exact_runtime :: "rat py_runtime" where
  "exact_runtime =
     \<lparr>fl_nonzero = (\<lambda>x. x \<noteq> 0),
      fl_less = (\<lambda>n x. of_int n < x),
      fl_add = (\<lambda>n x. Inr (of_int n + x)),
      fl_mul = (\<lambda>n x. Inr (of_int n * x)),
      fl_int = (\<lambda>x. Inr (truncate x)),
      int_of_str = parse_int\<rparr>"

section \<open>Example databases\<close>

definition alice :: custom_user where
  "alice = \<lparr>user_id = 1, email = ''alice@example.com'', username = ''alice'', password = ''h1'',
            is_verified = True, is_superuser = False\<rparr>"

definition admin :: custom_user where
  "admin = \<lparr>user_id = 9, email = ''admin@example.com'', username = ''admin'', password = ''h9'',
            is_verified = True, is_superuser = True\<rparr>"

definition book_a :: book where
  "book_a = \<lparr>book_id = 1, name = ''A'', author = ''X'', description = None, book_user = 9,
             price = 100, stock = 5\<rparr>"

definition book_b :: book where
  "book_b = \<lparr>book_id = 2, name = ''B'', author = ''Y'', description = None, book_user = 9,
             price = 50, stock = 3\<rparr>"

text \<open>Alice's active cart holds one line: three copies of book A.\<close>

definition cart_one :: cart_model where
  "cart_one = \<lparr>cart_id = 1, cart_user = 1, total_price = 300, total_quantity = 3,
               is_ordered = False\<rparr>"

definition line_one :: cart_items where
  "line_one = \<lparr>item_id = 1, item_cart = 1, item_book = 1, quantity = 3, item_price = 300\<rparr>"

definition shop_one_line :: db where
  "shop_one_line =
     \<lparr>Book_table = [book_a, book_b], CartModel_table = [cart_one], CartItems_table = [line_one],
      Book_seq = 3, CartModel_seq = 2, CartItems_seq = 2\<rparr>"

text \<open>Alice's active cart holds two lines: one copy of A (5 in stock), ten of B (3 in stock).\<close>

definition shop_two_lines :: db where
  "shop_two_lines =
     \<lparr>Book_table = [book_a, book_b],
      CartModel_table = [\<lparr>cart_id = 1, cart_user = 1, total_price = 600, total_quantity = 11,
                           is_ordered = False\<rparr>],
      CartItems_table = [\<lparr>item_id = 1, item_cart = 1, item_book = 1, quantity = 1, item_price = 100\<rparr>,
                         \<lparr>item_id = 2, item_cart = 1, item_book = 2, quantity = 10, item_price = 500\<rparr>],
      Book_seq = 3, CartModel_seq = 2, CartItems_seq = 3\<rparr>"

text \<open>
  Not well formed: two lines of one cart for the same book, as only rows inserted behind
  the handlers' back can be.
\<close>

definition shop_duplicate_lines :: db where
  "shop_duplicate_lines =
     \<lparr>Book_table = [book_a, book_b],
      CartModel_table = [\<lparr>cart_id = 1, cart_user = 1, total_price = 600, total_quantity = 6,
                           is_ordered = False\<rparr>],
      CartItems_table = [\<lparr>item_id = 1, item_cart = 1, item_book = 1, quantity = 3, item_price = 300\<rparr>,
                         \<lparr>item_id = 2, item_cart = 1, item_book = 1, quantity = 3, item_price = 300\<rparr>],
      Book_seq = 3, CartModel_seq = 2, CartItems_seq = 3\<rparr>"

text \<open>Alice has ordered two copies of A; the stock of A is what the order left.\<close>

definition shop_ordered :: db where
  "shop_ordered =
     \<lparr>Book_table = [book_a, book_b],
      CartModel_table = [\<lparr>cart_id = 1, cart_user = 1, total_price = 200, total_quantity = 2,
                           is_ordered = True\<rparr>],
      CartItems_table = [\<lparr>item_id = 1, item_cart = 1, item_book = 1, quantity = 2, item_price = 200\<rparr>],
      Book_seq = 3, CartModel_seq = 2, CartItems_seq = 2\<rparr>"

text \<open>Databases with books only, from which the handlers reach the ones above.\<close>

definition shop_fresh :: db where
  "shop_fresh =
     \<lparr>Book_table = [book_a, book_b], CartModel_table = [], CartItems_table = [],
      Book_seq = 3, CartModel_seq = 1, CartItems_seq = 1\<rparr>"

definition shop_b_ten :: db where
  "shop_b_ten = shop_fresh\<lparr>Book_table := [book_a, book_b\<lparr>stock := 10\<rparr>]\<rparr>"

definition shop_a_seven :: db where
  "shop_a_seven = shop_fresh\<lparr>Book_table := [book_a\<lparr>stock := 7\<rparr>, book_b]\<rparr>"

definition payload_b :: book_payload where
  "payload_b = \<lparr>p_name = Some ''B'', p_author = Some ''Y'', p_description = None,
                p_price = Some 50, p_stock = Some 3\<rparr>"

definition payload_c :: book_payload where
  "payload_c = \<lparr>p_name = Some ''C'', p_author = Some ''Z'', p_description = None,
                p_price = Some 150, p_stock = Some 5\<rparr>"

section \<open>Placing an order\<close>

text \<open>
  \<open>shop_two_lines\<close> is reached through the handlers alone: Alice adds one copy of A and
  ten of B while B has ten in stock, then an administrator sets the stock of B to 3.
\<close>

lemma shop_two_lines_reached:
  "snd (BookViewset_update
          (snd (CartsViews_post rt
                  (snd (CartsViews_post rt shop_b_ten alice \<lparr>req_book_id = PInt 1, req_quantity = PInt 1\<rparr>))
                  alice \<lparr>req_book_id = PInt 2, req_quantity = PInt 10\<rparr>))
          admin 2 payload_b) = shop_two_lines"
  by code_simp

text \<open>
  Claim C1. A cart with a line that fails the stock check makes \<open>place_order\<close> answer 400
  with no book's stock changed. The loop checks and decrements line by line, so this
  fails when a line that passes comes before the line that fails: on \<open>shop_two_lines\<close>
  the answer is 400 for book B, and the stock of book A has gone from 5 to 4.
\<close>

theorem place_order_partial_decrement:
  "OrderViews_post shop_two_lines alice =
     (Response (msg ''Insufficient stock for the book B.'') HTTP_400_BAD_REQUEST,
      shop_two_lines\<lparr>Book_table := [book_a\<lparr>stock := 4\<rparr>, book_b]\<rparr>)
   \<and> stock book_a = 5"
  by code_simp

section \<open>Adding to the cart\<close>

lemma not_given_cases:
  "req_book_id r = PNone \<or> req_book_id r = PInt 0 \<or> req_quantity r = PNone \<or> req_quantity r = PInt 0
     \<Longrightarrow> not_given rt r"
  by (auto simp: not_given_def truthy_def)

lemma not_given_integers:
  "not_given rt \<lparr>req_book_id = PInt i, req_quantity = PInt n\<rparr> \<longleftrightarrow> i = 0 \<or> n = 0"
  by (simp add: not_given_def truthy_def)

lemma add_or_update_required:
  "not_given rt r \<Longrightarrow>
     CartsViews_post rt d u r =
       (Response (msg ''book_id and quantity are required.'') HTTP_400_BAD_REQUEST, d)"
  by (simp add: CartsViews_post_def)

lemma shop_one_line_reached:
  "snd (CartsViews_post rt shop_fresh alice \<lparr>req_book_id = PInt 1, req_quantity = PInt 3\<rparr>)
     = shop_one_line"
  by code_simp

text \<open>
  A negative quantity for a book that has no line yet: the line is created with the
  defaults, saving it with the negative quantity raises, and the answer is 500 with the
  new cart and the new line left behind.
\<close>

lemma add_or_update_negative_new_line:
  "CartsViews_post rt shop_fresh alice \<lparr>req_book_id = PInt 1, req_quantity = PInt (- 1)\<rparr> =
     (post_error IntegrityError,
      shop_fresh
        \<lparr>CartModel_table := [\<lparr>cart_id = 1, cart_user = 1, total_price = 0, total_quantity = 0,
                               is_ordered = False\<rparr>],
         CartItems_table := [\<lparr>item_id = 1, item_cart = 1, item_book = 1, quantity = 0,
                               item_price = 0\<rparr>],
         CartModel_seq := 2, CartItems_seq := 2\<rparr>)"
  by code_simp

text \<open>
  Claim C3. \<open>add_or_update\<close> answers 400 and changes nothing when \<open>book_id\<close> or \<open>quantity\<close>
  is missing or \<open>quantity \<le> 0\<close>. The handler tests \<open>not quantity\<close>, which is true of a
  missing value and of 0 (\<open>not_given_cases\<close>, \<open>add_or_update_required\<close>) and false of a
  negative one: on \<open>shop_one_line\<close> the request \<open>quantity = -1\<close> for book A is answered
  200, and the line goes from 3 copies to 2, whatever the runtime \<open>rt\<close>.
\<close>

theorem add_or_update_negative_quantity:
  "CartsViews_post rt shop_one_line alice \<lparr>req_book_id = PInt 1, req_quantity = PInt (- 1)\<rparr> =
     (Response (JObj [(''message'', JStr ''Cart updated successfully''),
                      (''status'', JStr ''success''),
                      (''cart'', CartSerializer \<lparr>cart_id = 1, cart_user = 1, total_price = 200,
                                                total_quantity = 2, is_ordered = False\<rparr>)])
        HTTP_200_OK,
      shop_one_line
        \<lparr>CartModel_table := [\<lparr>cart_id = 1, cart_user = 1, total_price = 200,
                               total_quantity = 2, is_ordered = False\<rparr>],
         CartItems_table := [\<lparr>item_id = 1, item_cart = 1, item_book = 1, quantity = 2,
                               item_price = 200\<rparr>]\<rparr>)"
  by code_simp

section \<open>Cancelling an order\<close>

lemma cancel_order_not_found:
  "\<not> list_ex (\<lambda>c. cart_user c = user_id u \<and> is_ordered c \<and> cart_id c = pk) (CartModel_table d) \<Longrightarrow>
     OrderViewsByID_delete d u pk =
       (Response (msg ''No order found to cancel.'') HTTP_404_NOT_FOUND, d)"
  by (simp add: OrderViewsByID_delete_def filter_empty_conv list_ex_iff)

lemma cancel_order_changes_nothing:
  "OrderViewsByID_delete d u pk = (r, d') \<Longrightarrow> d' = d \<and> status_code r \<noteq> HTTP_200_OK"
  by (auto simp: OrderViewsByID_delete_def CartItems_filter_cart_def Let_def Response_def
      cancel_error_def split: if_splits)

text \<open>\<open>shop_ordered\<close> is what Alice's order of two copies of A leaves, A having had 7.\<close>

lemma shop_ordered_reached:
  "snd (OrderViews_post
          (snd (CartsViews_post rt shop_a_seven alice \<lparr>req_book_id = PInt 1, req_quantity = PInt 2\<rparr>))
          alice) = shop_ordered"
  by code_simp

text \<open>
  Claim C5. \<open>cancel_order\<close> on an ordered cart of the caller restores the stock of each
  line's book and deletes the cart; without such a cart it answers 404 and changes
  nothing. The second half holds (\<open>cancel_order_not_found\<close>). The first does not: the
  handler filters the lines by the query set of carts rather than by a cart, the lookup
  raises, and the answer is 500 with the database as it was. On \<open>shop_ordered\<close> the
  stock of A stays 5 (it is not restored to 7) and the cart stays.
\<close>

theorem cancel_order_fails:
  "OrderViewsByID_delete shop_ordered alice 1 = (cancel_error ValueError, shop_ordered)
   \<and> status_code (cancel_error ValueError) = HTTP_500_INTERNAL_SERVER_ERROR"
  by code_simp

section \<open>The catalog\<close>

text \<open>
  Claim C8. For a caller who is not a superuser, create, update and delete on the catalog
  answer 403 and leave the database, hence every book, as it was.
\<close>

theorem catalog_forbidden:
  "\<not> is_superuser u \<Longrightarrow>
     BookViewset_create d u p = (permission_denied, d) \<and>
     BookViewset_update d u pk p = (permission_denied, d) \<and>
     BookViewset_destroy d u pk = (permission_denied, d) \<and>
     status_code permission_denied = HTTP_403_FORBIDDEN"
  by (simp add: BookViewset_create_def BookViewset_update_def BookViewset_destroy_def
      permission_denied_def Response_def)

theorem catalog_forbidden_witness:
  "\<not> is_superuser alice \<and>
   BookViewset_create shop_one_line alice payload_c = (permission_denied, shop_one_line) \<and>
   BookViewset_update shop_one_line alice 1 payload_c = (permission_denied, shop_one_line) \<and>
   BookViewset_destroy shop_one_line alice 1 = (permission_denied, shop_one_line) \<and>
   status_code permission_denied = HTTP_403_FORBIDDEN"
  using catalog_forbidden [of alice shop_one_line payload_c 1] by (simp add: alice_def)

section \<open>Shared facts about the queries\<close>

lemma or_0_aggregate: "or_0 (aggregate_Sum f xs) = sum_list (map f xs)"
  by (simp add: or_0_def aggregate_Sum_def)

lemma objects_get_Inr: "objects_get xs = Inr x \<Longrightarrow> xs = [x]"
  by (cases xs rule: objects_get.cases) auto

lemma objects_get_DoesNotExist: "objects_get xs = Inl DoesNotExist \<Longrightarrow> xs = []"
  by (cases xs rule: objects_get.cases) auto

lemma first_filter_in: "first (filter P xs) = Some c \<Longrightarrow> c \<in> set xs \<and> P c"
  by (induction xs) (auto split: if_splits)

lemma Book_get_id: "Book_get d i = Some b \<Longrightarrow> book_id b = i"
  by (auto simp: Book_get_def find_Some_iff)

lemma Book_get_in: "Book_get d i = Some b \<Longrightarrow> b \<in> set (Book_table d)"
  by (auto simp: Book_get_def find_Some_iff)

lemma same_id_same_cart:
  assumes "distinct (map cart_id xs)" and "c \<in> set xs" and "x \<in> set xs" and "cart_id x = cart_id c"
  shows "x = c"
  using assms by (meson distinct_map inj_onD)

text \<open>Saving a cart whose row some \<open>.first()\<close> returned leaves it the first such row.\<close>

lemma first_active_after_save:
  assumes "first (filter P xs) = Some c" and "P c'" and "cart_id c' = cart_id c"
  shows "first (filter P (map (\<lambda>x. if cart_id x = cart_id c then c' else x) xs)) = Some c'"
  using assms by (induction xs) (auto split: if_splits)

lemma get_or_create_cart:
  assumes "CartModel_get_or_create d u = Inr (c, cr, d1)"
  shows "active_carts d1 u = [c] \<and> Book_table d1 = Book_table d \<and>
         CartItems_table d1 = CartItems_table d"
proof (cases "objects_get (active_carts d u)")
  case (Inr x)
  then show ?thesis using assms objects_get_Inr [OF Inr]
    by (simp add: CartModel_get_or_create_def)
next
  case (Inl e)
  then have e: "e = DoesNotExist" using assms
    by (cases e) (simp_all add: CartModel_get_or_create_def)
  then have "active_carts d u = []" using Inl objects_get_DoesNotExist by blast
  then show ?thesis using assms Inl e
    by (auto simp: CartModel_get_or_create_def active_carts_def Let_def)
qed

lemma get_or_create_line:
  assumes "CartItems_get_or_create d1 c b = Inr (i, cr, d2)"
  shows "i \<in> set (CartItems_table d2) \<and> item_cart i = cart_id c \<and> item_book i = book_id b \<and>
         CartModel_table d2 = CartModel_table d1 \<and> Book_table d2 = Book_table d1"
proof (cases "objects_get (filter (\<lambda>i. item_cart i = cart_id c \<and> item_book i = book_id b)
                (CartItems_table d1))")
  case (Inr x)
  from objects_get_Inr [OF Inr]
  have "x \<in> set (filter (\<lambda>i. item_cart i = cart_id c \<and> item_book i = book_id b) (CartItems_table d1))"
    by simp
  then show ?thesis using assms Inr
    by (simp add: CartItems_get_or_create_def)
next
  case (Inl e)
  then have e: "e = DoesNotExist" using assms
    by (cases e) (simp_all add: CartItems_get_or_create_def)
  then show ?thesis using assms Inl
    by (auto simp: CartItems_get_or_create_def Let_def)
qed

lemma Book_objects_get_id:
  "Book_objects_get rt d (PInt i) = Inr b \<longleftrightarrow> Book_get d i = Some b"
  by (simp add: Book_objects_get_def Book_lookup_def split: option.splits)

lemma Book_objects_get_books:
  assumes "Book_table d' = Book_table d"
  shows "Book_objects_get rt d' v = Book_objects_get rt d v"
proof -
  have "Book_lookup d' i = Book_lookup d i" for i
    using assms by (simp add: Book_lookup_def Book_get_def)
  then show ?thesis
    by (cases v) (simp_all add: Book_objects_get_def split: sum.splits option.splits)
qed

section \<open>Adding to the cart: insufficient stock\<close>

text \<open>
  The claim for a request whose fields are integers, as the claim words it.
\<close>

lemma add_or_update_insufficient_stock_integers:
  assumes "req_book_id r = PInt bid" and "req_quantity r = PInt qty"
    and "Book_get d bid = Some b"
    and "active_carts d u = [c]"
    and "filter (\<lambda>i. item_cart i = cart_id c \<and> item_book i = bid) (CartItems_table d) = [l]"
    and "stock b < quantity l + qty"
  shows "snd (CartsViews_post rt d u r) = d \<and>
         status_code (fst (CartsViews_post rt d u r)) = HTTP_400_BAD_REQUEST"
proof -
  have bid: "book_id b = bid" using assms(3) by (rule Book_get_id)
  show ?thesis
    using assms bid
    by (simp add: CartsViews_post_def Response_def insufficient_stock_def Book_objects_get_def
        Book_lookup_def as_number_def py_less_def py_add_def
        CartModel_get_or_create_def CartItems_get_or_create_def)
qed



section \<open>Removing the last line\<close>

text \<open>
  Claim C10. The caller has one active cart \<open>c\<close> whose only line is for book \<open>pk\<close>. Then
  \<open>remove_item\<close> answers 204, the cart stays the caller's active cart, now with no line
  and with both totals 0, and a cart GET after it answers 200 with that cart.
\<close>

theorem remove_last_line_keeps_cart:
  assumes "pk \<noteq> 0"
    and "distinct (map cart_id (CartModel_table d))"
    and "active_carts d u = [c]"
    and "cart_lines d c = [l]" and "item_book l = pk"
  shows "\<exists>d'. CartsViewsByID_delete d u pk =
                 (Response (msg ''Item deleted successfully'') HTTP_204_NO_CONTENT, d') \<and>
              active_carts d' u = [c\<lparr>total_quantity := 0, total_price := 0\<rparr>] \<and>
              cart_lines d' c = [] \<and>
              CartsViews_get d' u =
                Response (JObj [(''message'', JStr ''The active cart of the user is Fetched''),
                                (''status'', JStr ''success''),
                                (''cart'', CartSerializer (c\<lparr>total_quantity := 0, total_price := 0\<rparr>))])
                  HTTP_200_OK"
proof -
  let ?d1 = "CartItems_delete d l"
  let ?c' = "c\<lparr>total_quantity := 0, total_price := 0\<rparr>"
  let ?f = "\<lambda>x. if cart_id x = cart_id c then ?c' else x"
  let ?d2 = "?d1\<lparr>CartModel_table := map ?f (CartModel_table ?d1)\<rparr>"
  let ?P = "\<lambda>c. cart_user c = user_id u \<and> \<not> is_ordered c"
  have line: "filter (\<lambda>i. item_book i = pk \<and> item_cart i = cart_id c) (CartItems_table d) = [l]"
  proof -
    have "filter (\<lambda>i. item_book i = pk \<and> item_cart i = cart_id c) (CartItems_table d)
         = filter (\<lambda>i. item_book i = pk) (cart_lines d c)"
      by (simp add: cart_lines_def conj_commute)
    then show ?thesis using assms(4,5) by simp
  qed
  have lines1: "cart_lines ?d1 c = []"
  proof -
    have "cart_lines ?d1 c = filter (\<lambda>x. item_id x \<noteq> item_id l) (cart_lines d c)"
      by (simp add: cart_lines_def CartItems_delete_def conj_commute)
    then show ?thesis using assms(4) by simp
  qed
  have rec: "recompute_totals ?d1 c = ?c'"
    by (simp add: recompute_totals_def lines1 aggregate_Sum_def or_0_def)
  have save: "CartModel_save ?d1 ?c' = Inr ?d2"
    by (simp add: CartModel_save_def)
  have "c \<in> set (active_carts d u)" using assms(3) by simp
  then have cin: "c \<in> set (CartModel_table d)" and cprop: "?P c"
    by (simp_all add: active_carts_def)
  have res: "CartsViewsByID_delete d u pk =
               (Response (msg ''Item deleted successfully'') HTTP_204_NO_CONTENT, ?d2)"
    using assms(1,3) line rec save by (simp add: CartsViewsByID_delete_def Let_def)
  have same: "\<And>x. x \<in> set (CartModel_table d) \<Longrightarrow> cart_id x = cart_id c \<Longrightarrow> x = c"
    using same_id_same_cart [OF assms(2) cin] by blast
  have act: "active_carts ?d2 u = [?c']"
  proof -
    have "filter ?P (map ?f (CartModel_table d)) = map ?f (filter ?P (CartModel_table d))"
      unfolding filter_map
      by (rule arg_cong [where f = "map ?f"], rule filter_cong) (auto simp: cprop dest: same)
    also have "\<dots> = map ?f [c]" using assms(3) by (simp add: active_carts_def)
    finally show ?thesis by (simp add: active_carts_def CartItems_delete_def)
  qed
  have lines2: "cart_lines ?d2 c = []"
    using lines1 by (simp add: cart_lines_def)
  have get: "CartsViews_get ?d2 u =
               Response (JObj [(''message'', JStr ''The active cart of the user is Fetched''),
                               (''status'', JStr ''success''),
                               (''cart'', CartSerializer ?c')]) HTTP_200_OK"
    unfolding CartsViews_get_def act by simp
  show ?thesis using res act lines2 get by blast
qed

theorem remove_last_line_keeps_cart_witness:
  "active_carts shop_one_line alice = [cart_one] \<and>
   cart_lines shop_one_line cart_one = [line_one] \<and>
   item_book line_one = 1 \<and>
   (\<exists>d'. CartsViewsByID_delete shop_one_line alice 1 =
            (Response (msg ''Item deleted successfully'') HTTP_204_NO_CONTENT, d') \<and>
          active_carts d' alice = [cart_one\<lparr>total_quantity := 0, total_price := 0\<rparr>] \<and>
          cart_lines d' cart_one = [] \<and>
          CartsViews_get d' alice =
            Response (JObj [(''message'', JStr ''The active cart of the user is Fetched''),
                            (''status'', JStr ''success''),
                            (''cart'', CartSerializer (cart_one\<lparr>total_quantity := 0, total_price := 0\<rparr>))])
              HTTP_200_OK)"
proof -
  have h1: "(1::int) \<noteq> 0" by simp
  have h2: "distinct (map cart_id (CartModel_table shop_one_line))" by code_simp
  have h3: "active_carts shop_one_line alice = [cart_one]" by code_simp
  have h4: "cart_lines shop_one_line cart_one = [line_one]" by code_simp
  have h5: "item_book line_one = 1" by code_simp
  from remove_last_line_keeps_cart [OF h1 h2 h3 h4 h5] h3 h4 h5
  show ?thesis by simp
qed

section \<open>Login failures\<close>

text \<open>
  Claim C9. Two login requests that pass the serializer, one with an email no account
  has, the other with the email of an account and a password that does not match it, get
  the same response, with status 400: the body does not tell the two cases apart.
\<close>

theorem login_failure_indistinguishable:
  assumes "UserLoginSerializer_is_valid email_ok r1 = Some (e1, p1)"
    and "UserLoginSerializer_is_valid email_ok r2 = Some (e2, p2)"
    and "find (\<lambda>u. email u = e1) users = None"
    and "find (\<lambda>u. email u = e2) users = Some u2" and "\<not> check_password p2 (password u2)"
  shows "LoginUser_post email_ok check_password for_user users r1 =
           LoginUser_post email_ok check_password for_user users r2 \<and>
         status_code (LoginUser_post email_ok check_password for_user users r1) = HTTP_400_BAD_REQUEST \<and>
         data (LoginUser_post email_ok check_password for_user users r1) =
           JObj [(''message'', JStr ''Login failed''), (''error'', JStr ''Invalid email or password'')]"
  using assms by (simp add: LoginUser_post_def authenticate_def Response_def)

theorem login_failure_indistinguishable_witness:
  "find (\<lambda>u. email u = ''bob@example.com'') [alice] = None \<and>
   find (\<lambda>u. email u = ''alice@example.com'') [alice] = Some alice \<and>
   ''wrong'' \<noteq> password alice \<and>
   LoginUser_post (\<lambda>e. CHR ''@'' \<in> set e) (\<lambda>p h. p = h) (\<lambda>u. (''r'', ''a'')) [alice]
       \<lparr>req_email = Some ''bob@example.com'', req_password = Some ''secret''\<rparr> =
     LoginUser_post (\<lambda>e. CHR ''@'' \<in> set e) (\<lambda>p h. p = h) (\<lambda>u. (''r'', ''a'')) [alice]
       \<lparr>req_email = Some ''alice@example.com'', req_password = Some ''wrong''\<rparr> \<and>
   status_code (LoginUser_post (\<lambda>e. CHR ''@'' \<in> set e) (\<lambda>p h. p = h) (\<lambda>u. (''r'', ''a'')) [alice]
       \<lparr>req_email = Some ''bob@example.com'', req_password = Some ''secret''\<rparr>) = HTTP_400_BAD_REQUEST"
proof -
  let ?ok = "\<lambda>e. CHR ''@'' \<in> set e"
  let ?r1 = "\<lparr>req_email = Some ''bob@example.com'', req_password = Some ''secret''\<rparr>"
  let ?r2 = "\<lparr>req_email = Some ''alice@example.com'', req_password = Some ''wrong''\<rparr>"
  have h1: "UserLoginSerializer_is_valid ?ok ?r1 = Some (''bob@example.com'', ''secret'')"
    by (simp add: UserLoginSerializer_is_valid_def UserLoginSerializer_validate_def)
  have h2: "UserLoginSerializer_is_valid ?ok ?r2 = Some (''alice@example.com'', ''wrong'')"
    by (simp add: UserLoginSerializer_is_valid_def UserLoginSerializer_validate_def)
  have h3: "find (\<lambda>u. email u = ''bob@example.com'') [alice] = None"
    by (simp add: alice_def)
  have h4: "find (\<lambda>u. email u = ''alice@example.com'') [alice] = Some alice"
    by (simp add: alice_def)
  have h5: "\<not> (''wrong'' = password alice)" by (simp add: alice_def)
  from login_failure_indistinguishable
         [where for_user = "\<lambda>u. (''r'', ''a'')" and check_password = "\<lambda>p h. p = h",
          OF h1 h2 h3 h4 h5]
    h3 h4 h5
  show ?thesis by blast
qed

section \<open>Totals after a cart mutation\<close>

lemma store_line_ok:
  assumes "store_line rt d2 c b i qty cr = (resp, d')"
    and "status_code resp = HTTP_200_OK \<or> status_code resp = HTTP_201_CREATED"
    and "first (active_carts d2 u) = Some c"
    and "\<exists>x \<in> set (CartItems_table d2). item_id x = item_id i"
    and "item_cart i = cart_id c" and "item_book i = book_id b"
  shows "\<exists>c' l. first (active_carts d' u) = Some c' \<and> l \<in> set (cart_lines d' c') \<and>
            item_book l = book_id b \<and>
            (\<forall>n. qty = NInt n \<longrightarrow> item_price l = price b * quantity l) \<and>
            total_price c' = sum_list (map item_price (cart_lines d' c')) \<and>
            total_quantity c' = sum_list (map quantity (cart_lines d' c')) \<and>
            Book_table d' = Book_table d2"
proof -
  obtain lp where lp: "py_mul rt (price b) qty = Inr lp"
    using assms(1,2)
    by (cases "py_mul rt (price b) qty") (auto simp: store_line_def post_error_def Response_def)
  obtain q where q: "py_int rt qty = Inr q"
    using assms(1,2) lp
    by (cases "py_int rt qty") (auto simp: store_line_def post_error_def Response_def)
  obtain p where p: "py_int rt lp = Inr p"
    using assms(1,2) lp q
    by (cases "py_int rt lp") (auto simp: store_line_def post_error_def Response_def)
  let ?i = "i\<lparr>quantity := q, item_price := p\<rparr>"
  obtain d3 where d3: "CartItems_save d2 ?i = Inr d3"
    using assms(1,2) lp q p
    by (cases "CartItems_save d2 ?i") (auto simp: store_line_def post_error_def Response_def)
  let ?c = "recompute_totals d3 c"
  obtain d4 where d4: "CartModel_save d3 ?c = Inr d4"
    using assms(1,2) lp q p d3
    by (cases "CartModel_save d3 ?c") (auto simp: store_line_def post_error_def Response_def)
  have d': "d' = d4" using assms(1) lp q p d3 d4 by (simp add: store_line_def)
  have t3: "CartItems_table d3 = map (\<lambda>x. if item_id x = item_id ?i then ?i else x) (CartItems_table d2)"
           "CartModel_table d3 = CartModel_table d2" "Book_table d3 = Book_table d2"
    using d3 by (auto simp: CartItems_save_def split: if_splits)
  have t4: "CartModel_table d4 = map (\<lambda>x. if cart_id x = cart_id c then ?c else x) (CartModel_table d3)"
           "CartItems_table d4 = CartItems_table d3" "Book_table d4 = Book_table d3"
    using d4 by (auto simp: CartModel_save_def recompute_totals_def split: if_splits)
  have cp: "cart_user c = user_id u \<and> \<not> is_ordered c"
    using first_filter_in [OF assms(3) [unfolded active_carts_def]] by simp
  have act: "first (active_carts d4 u) = Some ?c"
    unfolding active_carts_def t4(1) t3(2)
    by (rule first_active_after_save [OF assms(3) [unfolded active_carts_def]])
       (simp_all add: recompute_totals_def cp)
  have lines: "cart_lines d4 ?c = cart_lines d3 c"
    by (simp add: cart_lines_def t4(2) recompute_totals_def)
  have "?i \<in> set (CartItems_table d3)"
    using assms(4) unfolding t3(1) by (auto simp: image_iff)
  then have lin: "?i \<in> set (cart_lines d3 c)"
    using assms(5) by (simp add: cart_lines_def)
  have int: "\<forall>n. qty = NInt n \<longrightarrow> item_price ?i = price b * quantity ?i"
    using lp q p by (auto simp: py_mul_def py_int_def)
  show ?thesis
    unfolding d'
    by (rule exI [of _ ?c], rule exI [of _ ?i])
       (use int in \<open>simp add: act lines lin assms(6) t4(3) t3(3)\<close>,
        simp add: recompute_totals_def or_0_aggregate)
qed

text \<open>
  After \<open>add_or_update\<close> has answered 200 or 201, the totals of the caller's active cart
  are the sums over its lines, whatever the request was; and if the requested quantity
  is an integer, the line of the requested book is priced at the book's price times the
  line's quantity.
\<close>

lemma add_or_update_totals:
  assumes "CartsViews_post rt d u r = (resp, d')"
    and "status_code resp = HTTP_200_OK \<or> status_code resp = HTTP_201_CREATED"
  shows "\<exists>b c l. Book_objects_get rt d' (req_book_id r) = Inr b \<and>
           first (active_carts d' u) = Some c \<and> l \<in> set (cart_lines d' c) \<and>
           item_book l = book_id b \<and>
           (\<forall>n. as_number (req_quantity r) = Some (NInt n) \<longrightarrow> item_price l = price b * quantity l) \<and>
           total_price c = sum_list (map item_price (cart_lines d' c)) \<and>
           total_quantity c = sum_list (map quantity (cart_lines d' c))"
proof -
  have nz: "\<not> not_given rt r"
    using assms by (auto simp: CartsViews_post_def Response_def split: if_splits)
  obtain b where b: "Book_objects_get rt d (req_book_id r) = Inr b"
    using assms nz
    by (cases "Book_objects_get rt d (req_book_id r)")
       (auto simp: CartsViews_post_def Response_def post_error_def split: exn.splits)
  obtain qty where qty: "as_number (req_quantity r) = Some qty"
    using assms nz b
    by (cases "as_number (req_quantity r)")
       (auto simp: CartsViews_post_def Response_def post_error_def)
  have st: "\<not> py_less rt (stock b) qty"
    using assms nz b qty
    by (auto simp: CartsViews_post_def Response_def insufficient_stock_def split: if_splits)
  obtain c cr1 d1 where c: "CartModel_get_or_create d u = Inr (c, cr1, d1)"
    using assms nz b qty st
    by (cases "CartModel_get_or_create d u")
       (auto simp: CartsViews_post_def Response_def post_error_def)
  obtain i cr d2 where i: "CartItems_get_or_create d1 c b = Inr (i, cr, d2)"
    using assms nz b qty st c
    by (cases "CartItems_get_or_create d1 c b")
       (auto simp: CartsViews_post_def Response_def post_error_def)
  from get_or_create_cart [OF c]
  have g1: "active_carts d1 u = [c]" "Book_table d1 = Book_table d" by auto
  from get_or_create_line [OF i]
  have g2: "i \<in> set (CartItems_table d2)" "item_cart i = cart_id c" "item_book i = book_id b"
      "CartModel_table d2 = CartModel_table d1" "Book_table d2 = Book_table d1"
    by auto
  have act2: "first (active_carts d2 u) = Some c"
    using g1(1) g2(4) by (simp add: active_carts_def)
  have "\<exists>v. store_line rt d2 c b i v cr = (resp, d') \<and> (\<forall>n. qty = NInt n \<longrightarrow> (\<exists>m. v = NInt m))"
  proof (cases cr)
    case True
    then have "store_line rt d2 c b i qty cr = (resp, d')"
      using assms nz b qty st c i by (simp add: CartsViews_post_def)
    then show ?thesis by (intro exI [of _ qty]) simp
  next
    case False
    obtain w where w: "py_add rt (quantity i) qty = Inr w"
      using assms nz b qty st c i False
      by (cases "py_add rt (quantity i) qty")
         (auto simp: CartsViews_post_def Response_def post_error_def)
    have "store_line rt d2 c b i w cr = (resp, d')"
      using assms nz b qty st c i False w
      by (auto simp: CartsViews_post_def Response_def insufficient_stock_def split: if_splits)
    moreover have "\<forall>n. qty = NInt n \<longrightarrow> (\<exists>m. w = NInt m)"
      using w by (auto simp: py_add_def)
    ultimately show ?thesis by (intro exI [of _ w]) simp
  qed
  then obtain v where sl: "store_line rt d2 c b i v cr = (resp, d')"
    and v: "\<forall>n. qty = NInt n \<longrightarrow> (\<exists>m. v = NInt m)"
    by (elim exE conjE)
  have ex: "\<exists>x \<in> set (CartItems_table d2). item_id x = item_id i"
    using g2(1) by auto
  from store_line_ok [OF sl assms(2) act2 ex g2(2,3)]
  obtain c' l where r: "first (active_carts d' u) = Some c'" "l \<in> set (cart_lines d' c')"
      "item_book l = book_id b" "\<forall>n. v = NInt n \<longrightarrow> item_price l = price b * quantity l"
      "total_price c' = sum_list (map item_price (cart_lines d' c'))"
      "total_quantity c' = sum_list (map quantity (cart_lines d' c'))"
      "Book_table d' = Book_table d2"
    by auto
  have "Book_table d' = Book_table d" using r(7) g2(5) g1(2) by simp
  from Book_objects_get_books [OF this, of rt "req_book_id r"]
  have b': "Book_objects_get rt d' (req_book_id r) = Inr b"
    using b by simp
  have "\<forall>n. as_number (req_quantity r) = Some (NInt n) \<longrightarrow> item_price l = price b * quantity l"
    using qty v r(4) by auto
  then show ?thesis using b' r by blast
qed

lemma remove_item_totals:
  assumes "CartsViewsByID_delete d u pk = (resp, d')"
    and "status_code resp = HTTP_204_NO_CONTENT"
  shows "\<exists>c. first (active_carts d' u) = Some c \<and>
           total_price c = sum_list (map item_price (cart_lines d' c)) \<and>
           total_quantity c = sum_list (map quantity (cart_lines d' c))"
proof -
  have pk: "pk \<noteq> 0"
    using assms by (auto simp: CartsViewsByID_delete_def Response_def split: if_splits)
  obtain c where c: "first (active_carts d u) = Some c"
    using assms pk
    by (cases "first (active_carts d u)") (auto simp: CartsViewsByID_delete_def Response_def)
  obtain l where l: "first (filter (\<lambda>i. item_book i = pk \<and> item_cart i = cart_id c)
                             (CartItems_table d)) = Some l"
    using assms pk c
    by (cases "first (filter (\<lambda>i. item_book i = pk \<and> item_cart i = cart_id c) (CartItems_table d))")
       (auto simp: CartsViewsByID_delete_def Response_def)
  let ?d1 = "CartItems_delete d l"
  let ?c = "recompute_totals ?d1 c"
  obtain d2 where d2: "CartModel_save ?d1 ?c = Inr d2"
    using assms pk c l
    by (cases "CartModel_save ?d1 ?c") (auto simp: CartsViewsByID_delete_def Response_def Let_def)
  have d': "d' = d2" using assms pk c l d2 by (simp add: CartsViewsByID_delete_def Let_def)
  have t2: "CartModel_table d2 = map (\<lambda>x. if cart_id x = cart_id c then ?c else x) (CartModel_table d)"
           "CartItems_table d2 = CartItems_table ?d1"
    using d2
    by (auto simp: CartModel_save_def recompute_totals_def CartItems_delete_def split: if_splits)
  have cp: "cart_user c = user_id u \<and> \<not> is_ordered c"
    using first_filter_in [OF c [unfolded active_carts_def]] by simp
  have act: "first (active_carts d2 u) = Some ?c"
    unfolding active_carts_def t2(1)
    by (rule first_active_after_save [OF c [unfolded active_carts_def]])
       (simp_all add: recompute_totals_def cp)
  have lines: "cart_lines d2 ?c = cart_lines ?d1 c"
    by (simp add: cart_lines_def t2(2) recompute_totals_def)
  show ?thesis
    unfolding d'
    by (rule exI [of _ ?c]) (simp add: act lines, simp add: recompute_totals_def or_0_aggregate)
qed


text \<open>
  Claim C6. After every successful \<open>add_or_update\<close> or \<open>remove_item\<close> the mutated line's
  price is the book's price times the line's quantity, and the cart's totals are the sums
  over its lines. The totals always are (\<open>add_or_update_totals\<close>, \<open>remove_item_totals\<close>),
  and so is the line's price when the requested quantity is an integer. But the handler
  takes the quantity as it comes: for \<open>quantity = 1.5\<close> of book A (price 100) it prices the
  line at 100 * 1.5, the row keeps the integer parts, quantity 1 and price 150, and the
  answer is 201. The line's price is then 150, not 100 * 1.
\<close>

theorem add_or_update_fractional_quantity:
  "CartsViews_post exact_runtime shop_fresh alice \<lparr>req_book_id = PInt 1, req_quantity = PFloat (3 / 2)\<rparr> =
     (Response (JObj [(''message'', JStr ''New cart created successfully''),
                      (''status'', JStr ''success''),
                      (''cart'', CartSerializer \<lparr>cart_id = 1, cart_user = 1, total_price = 150,
                                                total_quantity = 1, is_ordered = False\<rparr>)])
        HTTP_201_CREATED,
      shop_fresh
        \<lparr>CartModel_table := [\<lparr>cart_id = 1, cart_user = 1, total_price = 150,
                               total_quantity = 1, is_ordered = False\<rparr>],
         CartItems_table := [\<lparr>item_id = 1, item_cart = 1, item_book = 1, quantity = 1,
                               item_price = 150\<rparr>],
         CartModel_seq := 2, CartItems_seq := 2\<rparr>)
   \<and> price book_a * 1 = 100"
  by code_simp

text \<open>The same on a line that exists: 3 copies and 1.5 more are stored as 4 copies for 450.\<close>

lemma add_or_update_fractional_merge:
  "snd (CartsViews_post exact_runtime shop_one_line alice
          \<lparr>req_book_id = PInt 1, req_quantity = PFloat (3 / 2)\<rparr>) =
     shop_one_line
       \<lparr>CartModel_table := [\<lparr>cart_id = 1, cart_user = 1, total_price = 450,
                              total_quantity = 4, is_ordered = False\<rparr>],
        CartItems_table := [\<lparr>item_id = 1, item_cart = 1, item_book = 1, quantity = 4,
                              item_price = 450\<rparr>]\<rparr>"
  by code_simp

section \<open>Stock never goes negative\<close>

lemma CartItems_save_books: "CartItems_save d i = Inr d1 \<Longrightarrow> Book_table d1 = Book_table d"
  by (auto simp: CartItems_save_def split: if_splits)

lemma CartModel_save_books: "CartModel_save d c = Inr d1 \<Longrightarrow> Book_table d1 = Book_table d"
  by (auto simp: CartModel_save_def split: if_splits)

lemma CartModel_get_or_create_books:
  "CartModel_get_or_create d u = Inr (c, cr, d1) \<Longrightarrow> Book_table d1 = Book_table d"
  by (auto simp: CartModel_get_or_create_def Let_def split: sum.splits exn.splits)

lemma CartItems_get_or_create_books:
  "CartItems_get_or_create d c b = Inr (i, cr, d1) \<Longrightarrow> Book_table d1 = Book_table d"
  by (auto simp: CartItems_get_or_create_def Let_def split: sum.splits exn.splits)

lemma store_line_books: "Book_table (snd (store_line rt d c b i qty cr)) = Book_table d"
  by (auto simp: store_line_def split: sum.splits dest!: CartItems_save_books CartModel_save_books)

lemma add_or_update_books: "Book_table (snd (CartsViews_post rt d u r)) = Book_table d"
  by (auto simp: CartsViews_post_def store_line_books split: option.splits sum.splits exn.splits
      dest!: CartModel_get_or_create_books CartItems_get_or_create_books)

lemma remove_item_books: "Book_table (snd (CartsViewsByID_delete d u pk)) = Book_table d"
  by (auto simp: CartsViewsByID_delete_def Let_def CartItems_delete_def
      split: option.splits sum.splits dest!: CartModel_save_books)

lemma Book_save_nonneg: "Book_save d b = Inr d1 \<Longrightarrow> stock_nonneg d \<Longrightarrow> stock_nonneg d1"
  by (auto simp: Book_save_def stock_nonneg_def list_all_iff split: if_splits)

lemma place_loop_nonneg:
  "stock_nonneg d \<Longrightarrow>
     (\<forall>r d'. place_loop d ls = Inl (r, d') \<longrightarrow> stock_nonneg d') \<and>
     (\<forall>d'. place_loop d ls = Inr d' \<longrightarrow> stock_nonneg d')"
proof (induction ls arbitrary: d)
  case Nil
  then show ?case by simp
next
  case (Cons item rest)
  show ?case
  proof (cases "Book_get d (item_book item)")
    case None
    then show ?thesis using Cons.prems by simp
  next
    case (Some b)
    show ?thesis
    proof (cases "Book_save d (b\<lparr>stock := stock b - quantity item\<rparr>)")
      case (Inl e)
      then show ?thesis using Some Cons.prems by simp
    next
      case (Inr d1)
      then have "stock_nonneg d1" using Cons.prems by (rule Book_save_nonneg)
      from Cons.IH [OF this] show ?thesis using Some Inr Cons.prems by simp
    qed
  qed
qed

lemma restore_loop_nonneg:
  "stock_nonneg d \<Longrightarrow>
     (\<forall>r d'. restore_loop d ls = Inl (r, d') \<longrightarrow> stock_nonneg d') \<and>
     (\<forall>d'. restore_loop d ls = Inr d' \<longrightarrow> stock_nonneg d')"
proof (induction ls arbitrary: d)
  case Nil
  then show ?case by simp
next
  case (Cons item rest)
  show ?case
  proof (cases "Book_get d (item_book item)")
    case None
    then show ?thesis using Cons.prems by simp
  next
    case (Some b)
    show ?thesis
    proof (cases "Book_save d (b\<lparr>stock := stock b + quantity item\<rparr>)")
      case (Inl e)
      then show ?thesis using Some Cons.prems by simp
    next
      case (Inr d1)
      then have "stock_nonneg d1" using Cons.prems by (rule Book_save_nonneg)
      from Cons.IH [OF this] show ?thesis using Some Inr by simp
    qed
  qed
qed

lemma place_order_nonneg:
  assumes "stock_nonneg d"
  shows "stock_nonneg (snd (OrderViews_post d u))"
proof -
  have a: "place_loop d ls = Inl (r, d') \<Longrightarrow> stock_nonneg d'"
    and b: "place_loop d ls = Inr d' \<Longrightarrow> stock_nonneg d'" for ls r d'
    using place_loop_nonneg [OF assms, of ls] by auto
  have c: "CartModel_save d1 c = Inr d2 \<Longrightarrow> stock_nonneg d1 \<Longrightarrow> stock_nonneg d2" for d1 d2 c
    by (auto simp: stock_nonneg_def dest: CartModel_save_books)
  show ?thesis using assms
    by (auto simp: OrderViews_post_def Let_def split: option.splits sum.splits dest: a b c)
qed

lemma cancel_order_nonneg:
  assumes "stock_nonneg d"
  shows "stock_nonneg (snd (OrderViewsByID_delete d u pk))"
proof -
  have a: "restore_loop d ls = Inl (r, d') \<Longrightarrow> stock_nonneg d'"
    and a': "restore_loop d ls = Inr d' \<Longrightarrow> stock_nonneg d'" for ls r d'
    using restore_loop_nonneg [OF assms, of ls] by auto
  have b: "stock_nonneg d1 \<Longrightarrow> stock_nonneg (CartModel_delete_all d1 cs)" for d1 cs
    by (simp add: stock_nonneg_def CartModel_delete_all_def)
  show ?thesis
  proof (cases "CartItems_filter_cart d (QuerySet (filter (\<lambda>c. cart_user c = user_id u \<and>
                  is_ordered c \<and> cart_id c = pk) (CartModel_table d)))")
    case (Inl e)
    then show ?thesis using assms by (simp add: OrderViewsByID_delete_def Let_def)
  next
    case (Inr ls)
    then show ?thesis using assms b
      by (auto simp: OrderViewsByID_delete_def Let_def split: sum.splits dest: a a')
  qed
qed

lemma catalog_nonneg:
  assumes "stock_nonneg d"
  shows "stock_nonneg (snd (BookViewset_create d u p))"
    and "stock_nonneg (snd (BookViewset_update d u pk p))"
    and "stock_nonneg (snd (BookViewset_destroy d u pk))"
  using assms
  by (auto simp: BookViewset_create_def BookViewset_update_def BookViewset_destroy_def Let_def
      BookSerializer_is_valid_def Book_delete_def stock_nonneg_def list_all_iff
      split: option.splits sum.splits dest: Book_save_nonneg [unfolded stock_nonneg_def list_all_iff])

text \<open>
  Claim C4. If no book has a negative stock, none has after any operation:
  \<open>add_or_update\<close> and \<open>remove_item\<close> leave the table of books as it is, and after
  \<open>place_order\<close>, after \<open>cancel_order\<close> and after a catalog create, update or delete every
  stock is still at least 0.
\<close>

theorem stock_never_negative:
  assumes "stock_nonneg d"
  shows "Book_table (snd (CartsViews_post rt d u r)) = Book_table d \<and>
         Book_table (snd (CartsViewsByID_delete d u pk)) = Book_table d \<and>
         stock_nonneg (snd (OrderViews_post d u)) \<and>
         stock_nonneg (snd (OrderViewsByID_delete d u oid)) \<and>
         stock_nonneg (snd (BookViewset_create d su p)) \<and>
         stock_nonneg (snd (BookViewset_update d su bid p)) \<and>
         stock_nonneg (snd (BookViewset_destroy d su bid))"
  using assms add_or_update_books remove_item_books place_order_nonneg cancel_order_nonneg
    catalog_nonneg
  by simp

theorem stock_never_negative_witness:
  "stock_nonneg shop_two_lines \<and>
   Book_table (snd (CartsViews_post exact_runtime shop_two_lines alice
                     \<lparr>req_book_id = PInt 1, req_quantity = PFloat (3 / 2)\<rparr>))
     = Book_table shop_two_lines \<and>
   Book_table (snd (CartsViewsByID_delete shop_two_lines alice 1)) = Book_table shop_two_lines \<and>
   stock_nonneg (snd (OrderViews_post shop_two_lines alice)) \<and>
   stock_nonneg (snd (OrderViewsByID_delete shop_two_lines alice 1)) \<and>
   stock_nonneg (snd (BookViewset_create shop_two_lines admin payload_c)) \<and>
   stock_nonneg (snd (BookViewset_update shop_two_lines admin 1 payload_c)) \<and>
   stock_nonneg (snd (BookViewset_destroy shop_two_lines admin 1))"
proof -
  have h: "stock_nonneg shop_two_lines" by code_simp
  from stock_never_negative
         [OF h, of exact_runtime alice "\<lparr>req_book_id = PInt 1, req_quantity = PFloat (3 / 2)\<rparr>"
              1 1 admin payload_c 1] h
  show ?thesis by blast
qed

section \<open>The handlers keep the database well formed\<close>

lemma db_ok_empty: "db_ok empty_db"
  by (simp add: db_ok_def keys_ok_def checks_hold_def lines_unique_def empty_db_def)

lemma map_key_update:
  assumes "\<And>x. x \<in> set xs \<Longrightarrow> P x \<Longrightarrow> k y = k x"
  shows "map (k \<circ> (\<lambda>x. if P x then y else x)) xs = map k xs"
  using assms by (induction xs) auto

lemma CartModel_save_ok:
  assumes "db_ok d" and "CartModel_save d c = Inr d1"
  shows "db_ok d1"
proof -
  let ?f = "\<lambda>x. if cart_id x = cart_id c then c else x"
  have t: "CartModel_table d1 = map ?f (CartModel_table d)" "Book_table d1 = Book_table d"
      "CartItems_table d1 = CartItems_table d" "Book_seq d1 = Book_seq d"
      "CartModel_seq d1 = CartModel_seq d" "CartItems_seq d1 = CartItems_seq d"
    and chk: "0 \<le> total_price c \<and> 0 \<le> total_quantity c"
    using assms(2) by (auto simp: CartModel_save_def split: if_splits)
  have ids: "map (cart_id \<circ> ?f) (CartModel_table d) = map cart_id (CartModel_table d)"
    by (rule map_key_update) simp
  have "keys_ok d1"
    using assms(1) by (auto simp: db_ok_def keys_ok_def t list_all_iff ids)
  moreover have "checks_hold d1"
    using assms(1) chk by (auto simp: db_ok_def checks_hold_def t list_all_iff)
  moreover have "lines_unique d1"
    using assms(1) by (simp add: db_ok_def lines_unique_def t)
  ultimately show ?thesis by (simp add: db_ok_def)
qed

lemma Book_save_ok:
  assumes "db_ok d" and "Book_save d b = Inr d1"
  shows "db_ok d1"
proof -
  let ?f = "\<lambda>x. if book_id x = book_id b then b else x"
  have t: "Book_table d1 = map ?f (Book_table d)" "CartModel_table d1 = CartModel_table d"
      "CartItems_table d1 = CartItems_table d" "Book_seq d1 = Book_seq d"
      "CartModel_seq d1 = CartModel_seq d" "CartItems_seq d1 = CartItems_seq d"
    and chk: "0 \<le> price b \<and> 0 \<le> stock b"
    using assms(2) by (auto simp: Book_save_def split: if_splits)
  have ids: "map (book_id \<circ> ?f) (Book_table d) = map book_id (Book_table d)"
    by (rule map_key_update) simp
  have "keys_ok d1"
    using assms(1) by (auto simp: db_ok_def keys_ok_def t list_all_iff ids)
  moreover have "checks_hold d1"
    using assms(1) chk by (auto simp: db_ok_def checks_hold_def t list_all_iff)
  moreover have "lines_unique d1"
    using assms(1) by (simp add: db_ok_def lines_unique_def t)
  ultimately show ?thesis by (simp add: db_ok_def)
qed

lemma same_id_same_line:
  assumes "distinct (map item_id xs)" and "i \<in> set xs" and "x \<in> set xs" and "item_id x = item_id i"
  shows "x = i"
  using assms by (meson distinct_map inj_onD)

text \<open>Saving a line that was read from the table, with its cart and book as they were.\<close>

lemma CartItems_save_ok:
  assumes "db_ok d" and "CartItems_save d i = Inr d1"
    and "x \<in> set (CartItems_table d)" and "item_id i = item_id x"
    and "item_cart i = item_cart x" and "item_book i = item_book x"
  shows "db_ok d1"
proof -
  let ?f = "\<lambda>y. if item_id y = item_id i then i else y"
  have t: "CartItems_table d1 = map ?f (CartItems_table d)" "Book_table d1 = Book_table d"
      "CartModel_table d1 = CartModel_table d" "Book_seq d1 = Book_seq d"
      "CartModel_seq d1 = CartModel_seq d" "CartItems_seq d1 = CartItems_seq d"
    and chk: "0 \<le> quantity i \<and> 0 \<le> item_price i"
    using assms(2) by (auto simp: CartItems_save_def split: if_splits)
  have dist: "distinct (map item_id (CartItems_table d))"
    using assms(1) by (simp add: db_ok_def keys_ok_def)
  have same: "\<And>y. y \<in> set (CartItems_table d) \<Longrightarrow> item_id y = item_id i \<Longrightarrow> y = x"
    using same_id_same_line [OF dist assms(3)] assms(4) by simp
  have ids: "map (item_id \<circ> ?f) (CartItems_table d) = map item_id (CartItems_table d)"
    by (rule map_key_update) simp
  have pairs: "map ((\<lambda>i. (item_cart i, item_book i)) \<circ> ?f) (CartItems_table d)
                 = map (\<lambda>i. (item_cart i, item_book i)) (CartItems_table d)"
    by (rule map_key_update) (use same assms(5,6) in auto)
  have "keys_ok d1"
    using assms(1) by (auto simp: db_ok_def keys_ok_def t list_all_iff ids)
  moreover have "checks_hold d1"
    using assms(1) chk by (auto simp: db_ok_def checks_hold_def t list_all_iff)
  moreover have "lines_unique d1"
    using assms(1) by (simp add: db_ok_def lines_unique_def t pairs)
  ultimately show ?thesis by (simp add: db_ok_def)
qed

lemma CartModel_get_or_create_ok:
  assumes "db_ok d" and "CartModel_get_or_create d u = Inr (c, cr, d1)"
  shows "db_ok d1"
proof (cases "objects_get (active_carts d u)")
  case (Inr x)
  then show ?thesis using assms by (simp add: CartModel_get_or_create_def)
next
  case (Inl e)
  then have e: "e = DoesNotExist" using assms(2)
    by (cases e) (simp_all add: CartModel_get_or_create_def)
  let ?c = "\<lparr>cart_id = CartModel_seq d, cart_user = user_id u, total_price = 0,
             total_quantity = 0, is_ordered = False\<rparr>"
  have d1: "d1 = d\<lparr>CartModel_table := CartModel_table d @ [?c], CartModel_seq := CartModel_seq d + 1\<rparr>"
    using assms(2) Inl e by (auto simp: CartModel_get_or_create_def Let_def)
  have "keys_ok d1"
    using assms(1) by (fastforce simp: db_ok_def keys_ok_def d1 list_all_iff)
  moreover have "checks_hold d1"
    using assms(1) by (auto simp: db_ok_def checks_hold_def d1)
  moreover have "lines_unique d1"
    using assms(1) by (simp add: db_ok_def lines_unique_def d1)
  ultimately show ?thesis by (simp add: db_ok_def)
qed

lemma CartItems_get_or_create_ok:
  assumes "db_ok d" and "CartItems_get_or_create d c b = Inr (i, cr, d1)"
  shows "db_ok d1"
proof (cases "objects_get (filter (\<lambda>i. item_cart i = cart_id c \<and> item_book i = book_id b)
                (CartItems_table d))")
  case (Inr x)
  then show ?thesis using assms by (simp add: CartItems_get_or_create_def)
next
  case (Inl e)
  then have e: "e = DoesNotExist" using assms(2)
    by (cases e) (simp_all add: CartItems_get_or_create_def)
  let ?i = "\<lparr>item_id = CartItems_seq d, item_cart = cart_id c, item_book = book_id b,
             quantity = 0, item_price = 0\<rparr>"
  have d1: "d1 = d\<lparr>CartItems_table := CartItems_table d @ [?i], CartItems_seq := CartItems_seq d + 1\<rparr>"
    using assms(2) Inl e by (auto simp: CartItems_get_or_create_def Let_def)
  have none: "filter (\<lambda>i. item_cart i = cart_id c \<and> item_book i = book_id b) (CartItems_table d) = []"
    using Inl e objects_get_DoesNotExist by blast
  then have fresh: "(cart_id c, book_id b) \<notin> (\<lambda>i. (item_cart i, item_book i)) ` set (CartItems_table d)"
    by (auto simp: filter_empty_conv)
  have "keys_ok d1"
    using assms(1) by (fastforce simp: db_ok_def keys_ok_def d1 list_all_iff)
  moreover have "checks_hold d1"
    using assms(1) by (auto simp: db_ok_def checks_hold_def d1)
  moreover have "lines_unique d1"
    using assms(1) fresh by (simp add: db_ok_def lines_unique_def d1)
  ultimately show ?thesis by (simp add: db_ok_def)
qed

lemma CartItems_delete_ok: "db_ok d \<Longrightarrow> db_ok (CartItems_delete d i)"
  by (auto simp: db_ok_def keys_ok_def checks_hold_def lines_unique_def CartItems_delete_def
      list_all_iff distinct_map_filter)

lemma Book_delete_ok: "db_ok d \<Longrightarrow> db_ok (Book_delete d b)"
  by (auto simp: db_ok_def keys_ok_def checks_hold_def lines_unique_def Book_delete_def
      list_all_iff distinct_map_filter)

lemma CartModel_delete_all_ok: "db_ok d \<Longrightarrow> db_ok (CartModel_delete_all d cs)"
  by (auto simp: db_ok_def keys_ok_def checks_hold_def lines_unique_def CartModel_delete_all_def
      list_all_iff distinct_map_filter)

lemma store_line_db_ok:
  assumes "db_ok d" and "i \<in> set (CartItems_table d)"
  shows "db_ok (snd (store_line rt d c b i qty cr))"
proof -
  have save: "db_ok (snd (store_line rt d c b i qty cr))"
    if lp: "py_mul rt (price b) qty = Inr lp" and q: "py_int rt qty = Inr q"
      and p: "py_int rt lp = Inr p" for lp q p
  proof (cases "CartItems_save d (i\<lparr>quantity := q, item_price := p\<rparr>)")
    case (Inl e)
    then show ?thesis using assms(1) lp q p by (simp add: store_line_def)
  next
    case (Inr d1)
    from CartItems_save_ok [OF assms(1) Inr assms(2)]
    have ok1: "db_ok d1" by simp
    show ?thesis
    proof (cases "CartModel_save d1 (recompute_totals d1 c)")
      case (Inl e)
      then show ?thesis using Inr ok1 lp q p by (simp add: store_line_def)
    next
      case (Inr d2)
      from CartModel_save_ok [OF ok1 Inr] show ?thesis
        using \<open>CartItems_save d (i\<lparr>quantity := q, item_price := p\<rparr>) = Inr d1\<close> Inr lp q p
        by (simp add: store_line_def)
    qed
  qed
  show ?thesis
  proof (cases "py_mul rt (price b) qty")
    case (Inl e)
    then show ?thesis using assms(1) by (simp add: store_line_def)
  next
    case lp: (Inr lp)
    show ?thesis
    proof (cases "py_int rt qty")
      case (Inl e)
      then show ?thesis using assms(1) lp by (simp add: store_line_def)
    next
      case q: (Inr q)
      show ?thesis
      proof (cases "py_int rt lp")
        case (Inl e)
        then show ?thesis using assms(1) lp q by (simp add: store_line_def)
      next
        case (Inr p)
        with lp q show ?thesis by (rule save)
      qed
    qed
  qed
qed

lemma add_or_update_db_ok:
  assumes "db_ok d"
  shows "db_ok (snd (CartsViews_post rt d u r))"
proof (cases "not_given rt r")
  case True
  then show ?thesis using assms by (simp add: CartsViews_post_def)
next
  case False
  show ?thesis
  proof (cases "Book_objects_get rt d (req_book_id r)")
    case (Inl e)
    then show ?thesis using assms False by (cases e) (simp_all add: CartsViews_post_def)
  next
    case b: (Inr b)
    show ?thesis
    proof (cases "as_number (req_quantity r)")
      case None
      then show ?thesis using assms False b by (simp add: CartsViews_post_def)
    next
      case (Some qty)
      show ?thesis
      proof (cases "CartModel_get_or_create d u")
        case (Inl e)
        then show ?thesis using assms False b Some by (simp add: CartsViews_post_def)
      next
        case (Inr t1)
        then obtain c cr1 d1 where c: "CartModel_get_or_create d u = Inr (c, cr1, d1)"
          by (cases t1) auto
        have ok1: "db_ok d1" using assms c by (rule CartModel_get_or_create_ok)
        show ?thesis
        proof (cases "CartItems_get_or_create d1 c b")
          case (Inl e)
          then show ?thesis using assms ok1 False b Some c by (simp add: CartsViews_post_def)
        next
          case (Inr t2)
          then obtain i cr d2 where i: "CartItems_get_or_create d1 c b = Inr (i, cr, d2)"
            by (cases t2) auto
          have ok2: "db_ok d2" using ok1 i by (rule CartItems_get_or_create_ok)
          have iin: "i \<in> set (CartItems_table d2)" using get_or_create_line [OF i] by simp
          have sl: "db_ok (snd (store_line rt d2 c b i v cr'))" for v cr'
            using ok2 iin by (rule store_line_db_ok)
          show ?thesis using assms ok2 False b Some c i sl
            by (auto simp: CartsViews_post_def split: sum.splits)
        qed
      qed
    qed
  qed
qed

lemma remove_item_db_ok:
  assumes "db_ok d"
  shows "db_ok (snd (CartsViewsByID_delete d u pk))"
  using assms
  by (auto simp: CartsViewsByID_delete_def Let_def split: option.splits sum.splits
      intro: CartItems_delete_ok dest: CartModel_save_ok [rotated])

lemma place_loop_db_ok:
  "db_ok d \<Longrightarrow>
     (\<forall>r d'. place_loop d ls = Inl (r, d') \<longrightarrow> db_ok d') \<and>
     (\<forall>d'. place_loop d ls = Inr d' \<longrightarrow> db_ok d')"
proof (induction ls arbitrary: d)
  case Nil
  then show ?case by simp
next
  case (Cons item rest)
  show ?case
  proof (cases "Book_get d (item_book item)")
    case None
    then show ?thesis using Cons.prems by simp
  next
    case (Some b)
    show ?thesis
    proof (cases "Book_save d (b\<lparr>stock := stock b - quantity item\<rparr>)")
      case (Inl e)
      then show ?thesis using Some Cons.prems by simp
    next
      case (Inr d1)
      with Cons.prems have "db_ok d1" by (rule Book_save_ok)
      from Cons.IH [OF this] show ?thesis using Some Inr Cons.prems by simp
    qed
  qed
qed

lemma restore_loop_db_ok:
  "db_ok d \<Longrightarrow>
     (\<forall>r d'. restore_loop d ls = Inl (r, d') \<longrightarrow> db_ok d') \<and>
     (\<forall>d'. restore_loop d ls = Inr d' \<longrightarrow> db_ok d')"
proof (induction ls arbitrary: d)
  case Nil
  then show ?case by simp
next
  case (Cons item rest)
  show ?case
  proof (cases "Book_get d (item_book item)")
    case None
    then show ?thesis using Cons.prems by simp
  next
    case (Some b)
    show ?thesis
    proof (cases "Book_save d (b\<lparr>stock := stock b + quantity item\<rparr>)")
      case (Inl e)
      then show ?thesis using Some Cons.prems by simp
    next
      case (Inr d1)
      with Cons.prems have "db_ok d1" by (rule Book_save_ok)
      from Cons.IH [OF this] show ?thesis using Some Inr by simp
    qed
  qed
qed

lemma place_order_db_ok:
  assumes "db_ok d"
  shows "db_ok (snd (OrderViews_post d u))"
proof -
  have a: "place_loop d ls = Inl (r, d') \<Longrightarrow> db_ok d'"
    and b: "place_loop d ls = Inr d' \<Longrightarrow> db_ok d'" for ls r d'
    using place_loop_db_ok [OF assms, of ls] by auto
  show ?thesis using assms
    by (auto simp: OrderViews_post_def Let_def split: option.splits sum.splits
        dest: a b CartModel_save_ok [rotated])
qed

lemma cancel_order_db_ok:
  assumes "db_ok d"
  shows "db_ok (snd (OrderViewsByID_delete d u pk))"
proof -
  have a: "restore_loop d ls = Inl (r, d') \<Longrightarrow> db_ok d'"
    and a': "restore_loop d ls = Inr d' \<Longrightarrow> db_ok d'" for ls r d'
    using restore_loop_db_ok [OF assms, of ls] by auto
  show ?thesis using assms
    by (auto simp: OrderViewsByID_delete_def Let_def split: sum.splits
        dest: a intro: CartModel_delete_all_ok a')
qed

lemma catalog_create_db_ok:
  assumes "db_ok d"
  shows "db_ok (snd (BookViewset_create d u p))"
proof -
  have "db_ok (d\<lparr>Book_table := Book_table d @ [\<lparr>book_id = Book_seq d, name = n, author = a,
                    description = ds, book_user = w, price = pr, stock = st\<rparr>],
                 Book_seq := Book_seq d + 1\<rparr>)"
    if "0 \<le> pr" and "0 \<le> st" for n a ds w pr st
  proof -
    have "keys_ok (d\<lparr>Book_table := Book_table d @ [\<lparr>book_id = Book_seq d, name = n, author = a,
                    description = ds, book_user = w, price = pr, stock = st\<rparr>],
                 Book_seq := Book_seq d + 1\<rparr>)"
      using assms by (fastforce simp: db_ok_def keys_ok_def list_all_iff)
    then show ?thesis using assms that
      by (simp add: db_ok_def checks_hold_def lines_unique_def)
  qed
  then show ?thesis using assms
    by (auto simp: BookViewset_create_def BookSerializer_is_valid_def Let_def split: option.splits)
qed

lemma catalog_update_db_ok: "db_ok d \<Longrightarrow> db_ok (snd (BookViewset_update d u pk p))"
  by (auto simp: BookViewset_update_def Let_def split: option.splits sum.splits
      dest: Book_save_ok [rotated])

lemma catalog_destroy_db_ok: "db_ok d \<Longrightarrow> db_ok (snd (BookViewset_destroy d u pk))"
  by (auto simp: BookViewset_destroy_def split: option.splits intro: Book_delete_ok)

text \<open>
  Every database that the handlers can reach from the empty one is well formed: the
  empty database is (\<open>db_ok_empty\<close>), and each handler keeps it so.
\<close>

lemma db_ok_preserved:
  assumes "db_ok d"
  shows "db_ok (snd (CartsViews_post rt d u r))"
    and "db_ok (snd (CartsViewsByID_delete d u pk))"
    and "db_ok (snd (OrderViews_post d u))"
    and "db_ok (snd (OrderViewsByID_delete d u oid))"
    and "db_ok (snd (BookViewset_create d su p))"
    and "db_ok (snd (BookViewset_update d su bid p))"
    and "db_ok (snd (BookViewset_destroy d su bid))"
  using assms add_or_update_db_ok remove_item_db_ok place_order_db_ok cancel_order_db_ok
    catalog_create_db_ok catalog_update_db_ok catalog_destroy_db_ok
  by simp_all

section \<open>Placing an order: the valid case\<close>

lemma find_map_update:
  assumes "book_id b' = k"
  shows "find (\<lambda>x. book_id x = i) (map (\<lambda>x. if book_id x = k then b' else x) xs) =
         (if i = k then map_option (\<lambda>_. b') (find (\<lambda>x. book_id x = k) xs)
          else find (\<lambda>x. book_id x = i) xs)"
  using assms by (induction xs) auto

lemma Book_get_save:
  assumes "Book_get d k = Some b" and "book_id b' = k" and "0 \<le> price b'" and "0 \<le> stock b'"
  shows "\<exists>d1. Book_save d b' = Inr d1 \<and>
           (\<forall>i. Book_get d1 i = (if i = k then Some b' else Book_get d i)) \<and>
           CartModel_table d1 = CartModel_table d \<and> CartItems_table d1 = CartItems_table d"
  using assms by (auto simp: Book_save_def Book_get_def find_map_update)

text \<open>
  The loop over lines with pairwise different books, each within its book's stock: it
  runs to the end, and each book of a line has lost that line's quantity.
\<close>

lemma place_loop_ok:
  assumes "distinct (map item_book ls)"
    and "\<forall>l \<in> set ls. \<exists>b. Book_get d (item_book l) = Some b \<and> quantity l \<le> stock b \<and> 0 \<le> price b"
  shows "\<exists>d'. place_loop d ls = Inr d' \<and>
           CartModel_table d' = CartModel_table d \<and> CartItems_table d' = CartItems_table d \<and>
           (\<forall>i. Book_get d' i =
                  (case find (\<lambda>l. item_book l = i) ls of
                     None \<Rightarrow> Book_get d i
                   | Some l \<Rightarrow> map_option (\<lambda>b. b\<lparr>stock := stock b - quantity l\<rparr>) (Book_get d i)))"
  using assms
proof (induction ls arbitrary: d)
  case Nil
  then show ?case by simp
next
  case (Cons item rest)
  from Cons.prems(2) obtain b where b: "Book_get d (item_book item) = Some b"
      "quantity item \<le> stock b" "0 \<le> price b"
    by auto
  let ?b' = "b\<lparr>stock := stock b - quantity item\<rparr>"
  have "book_id ?b' = item_book item" using b(1) by (simp add: Book_get_id)
  with Book_get_save [OF b(1), of ?b'] b(2,3)
  obtain d1 where d1: "Book_save d ?b' = Inr d1"
      "\<And>i. Book_get d1 i = (if i = item_book item then Some ?b' else Book_get d i)"
      "CartModel_table d1 = CartModel_table d" "CartItems_table d1 = CartItems_table d"
    by auto
  have fresh: "\<And>l. l \<in> set rest \<Longrightarrow> item_book l \<noteq> item_book item"
    using Cons.prems(1) by (metis distinct.simps(2) image_eqI list.simps(9) set_map)
  have "\<forall>l \<in> set rest. \<exists>b. Book_get d1 (item_book l) = Some b \<and> quantity l \<le> stock b \<and> 0 \<le> price b"
    using Cons.prems(2) fresh by (simp add: d1(2))
  moreover have "distinct (map item_book rest)" using Cons.prems(1) by simp
  ultimately obtain d' where d': "place_loop d1 rest = Inr d'"
      "CartModel_table d' = CartModel_table d1" "CartItems_table d' = CartItems_table d1"
      "\<And>i. Book_get d' i =
                  (case find (\<lambda>l. item_book l = i) rest of
                     None \<Rightarrow> Book_get d1 i
                   | Some l \<Rightarrow> map_option (\<lambda>b. b\<lparr>stock := stock b - quantity l\<rparr>) (Book_get d1 i))"
    using Cons.IH [of d1] by auto
  have run: "place_loop d (item # rest) = Inr d'"
    using b d1(1) d'(1) by simp
  have books: "Book_get d' i =
                  (case find (\<lambda>l. item_book l = i) (item # rest) of
                     None \<Rightarrow> Book_get d i
                   | Some l \<Rightarrow> map_option (\<lambda>b. b\<lparr>stock := stock b - quantity l\<rparr>) (Book_get d i))" for i
  proof (cases "i = item_book item")
    case True
    then have "find (\<lambda>l. item_book l = i) rest = None"
      using fresh by (auto simp: find_None_iff)
    then show ?thesis using True b(1) by (simp add: d'(4) d1(2))
  next
    case False
    then show ?thesis by (auto simp: d'(4) d1(2) split: option.splits)
  qed
  show ?case using run books d'(2,3) d1(3,4) by auto
qed

lemma find_distinct_line:
  "distinct (map item_book ls) \<Longrightarrow> l \<in> set ls \<Longrightarrow> find (\<lambda>x. item_book x = item_book l) ls = Some l"
  by (induction ls) (auto simp: rev_image_eqI)

lemma lines_unique_books:
  "distinct (map (\<lambda>i. (item_cart i, item_book i)) xs) \<Longrightarrow>
     distinct (map item_book (filter (\<lambda>i. item_cart i = k) xs))"
  by (induction xs) (auto simp: image_iff)

text \<open>
  Why the database must be well formed for the next theorem: with two lines for one book,
  each within the stock on its own, the second line meets the stock the first one left.
\<close>

lemma place_order_duplicate_lines:
  "\<not> lines_unique shop_duplicate_lines \<and>
   OrderViews_post shop_duplicate_lines alice =
     (Response (msg ''Insufficient stock for the book A.'') HTTP_400_BAD_REQUEST,
      shop_duplicate_lines\<lparr>Book_table := [book_a\<lparr>stock := 2\<rparr>, book_b]\<rparr>)"
  by code_simp

text \<open>
  Claim C2. On a well-formed database, let \<open>c\<close> be the caller's active cart, with at
  least one line, every line's quantity at most the stock of its book. Then
  \<open>place_order\<close> answers 200; afterwards the book of each line has its stock less that
  line's quantity, every other book is as before, and \<open>c\<close> is stored with
  \<open>is_ordered\<close> true.
\<close>

theorem place_order_succeeds:
  assumes "db_ok d"
    and "first (active_carts d u) = Some c"
    and "cart_lines d c \<noteq> []"
    and "\<forall>l \<in> set (cart_lines d c). \<exists>b. Book_get d (item_book l) = Some b \<and> quantity l \<le> stock b"
  shows "\<exists>d'. OrderViews_post d u =
            (Response (JObj [(''message'', JStr ''The order placed''), (''status'', JStr ''Success'')])
               HTTP_200_OK, d') \<and>
          (\<forall>l \<in> set (cart_lines d c). \<forall>b. Book_get d (item_book l) = Some b \<longrightarrow>
               Book_get d' (item_book l) = Some (b\<lparr>stock := stock b - quantity l\<rparr>)) \<and>
          (\<forall>i. i \<notin> item_book ` set (cart_lines d c) \<longrightarrow> Book_get d' i = Book_get d i) \<and>
          CartModel_table d' =
            map (\<lambda>x. if cart_id x = cart_id c then c\<lparr>is_ordered := True\<rparr> else x) (CartModel_table d) \<and>
          CartItems_table d' = CartItems_table d"
proof -
  let ?ls = "cart_lines d c"
  have chk: "checks_hold d" and uniq: "lines_unique d"
    using assms(1) by (simp_all add: db_ok_def)
  have dist: "distinct (map item_book ?ls)"
    using uniq unfolding lines_unique_def cart_lines_def by (rule lines_unique_books)
  have price: "\<And>i b. Book_get d i = Some b \<Longrightarrow> 0 \<le> price b"
    using chk by (auto simp: checks_hold_def list_all_iff dest: Book_get_in)
  have "\<forall>l \<in> set ?ls. \<exists>b. Book_get d (item_book l) = Some b \<and> quantity l \<le> stock b \<and> 0 \<le> price b"
    using assms(4) price by blast
  from place_loop_ok [OF dist this]
  obtain d1 where d1: "place_loop d ?ls = Inr d1"
      "CartModel_table d1 = CartModel_table d" "CartItems_table d1 = CartItems_table d"
      "\<And>i. Book_get d1 i =
                  (case find (\<lambda>l. item_book l = i) ?ls of
                     None \<Rightarrow> Book_get d i
                   | Some l \<Rightarrow> map_option (\<lambda>b. b\<lparr>stock := stock b - quantity l\<rparr>) (Book_get d i))"
    by auto
  have cin: "c \<in> set (CartModel_table d)"
    using first_filter_in [OF assms(2) [unfolded active_carts_def]] by simp
  then have tot: "0 \<le> total_price c \<and> 0 \<le> total_quantity c"
    using chk by (auto simp: checks_hold_def list_all_iff)
  let ?d2 = "d1\<lparr>CartModel_table :=
                  map (\<lambda>x. if cart_id x = cart_id c then c\<lparr>is_ordered := True\<rparr> else x)
                    (CartModel_table d1)\<rparr>"
  have save: "CartModel_save d1 (c\<lparr>is_ordered := True\<rparr>) = Inr ?d2"
    using tot by (simp add: CartModel_save_def)
  have res: "OrderViews_post d u =
            (Response (JObj [(''message'', JStr ''The order placed''), (''status'', JStr ''Success'')])
               HTTP_200_OK, ?d2)"
    using assms(2,3) d1(1) save by (simp add: OrderViews_post_def Let_def)
  have get2: "Book_get ?d2 i = Book_get d1 i" for i by (simp add: Book_get_def)
  have a: "\<forall>l \<in> set ?ls. \<forall>b. Book_get d (item_book l) = Some b \<longrightarrow>
               Book_get ?d2 (item_book l) = Some (b\<lparr>stock := stock b - quantity l\<rparr>)"
    using find_distinct_line [OF dist] by (simp add: get2 d1(4))
  have b: "\<forall>i. i \<notin> item_book ` set ?ls \<longrightarrow> Book_get ?d2 i = Book_get d i"
  proof (intro allI impI)
    fix i assume "i \<notin> item_book ` set ?ls"
    then have "find (\<lambda>l. item_book l = i) ?ls = None" by (auto simp: find_None_iff)
    then show "Book_get ?d2 i = Book_get d i" by (simp add: get2 d1(4))
  qed
  show ?thesis using res a b d1(2,3) by (intro exI [of _ ?d2]) simp
qed

theorem place_order_succeeds_witness:
  "db_ok shop_one_line \<and>
   first (active_carts shop_one_line alice) = Some cart_one \<and>
   cart_lines shop_one_line cart_one = [line_one] \<and>
   Book_get shop_one_line (item_book line_one) = Some book_a \<and>
   quantity line_one \<le> stock book_a \<and>
   (\<exists>d'. OrderViews_post shop_one_line alice =
            (Response (JObj [(''message'', JStr ''The order placed''), (''status'', JStr ''Success'')])
               HTTP_200_OK, d') \<and>
          Book_get d' 1 = Some (book_a\<lparr>stock := 2\<rparr>) \<and>
          Book_get d' 2 = Some book_b \<and>
          CartModel_table d' = [cart_one\<lparr>is_ordered := True\<rparr>] \<and>
          CartItems_table d' = [line_one])"
proof -
  have h1: "db_ok shop_one_line" by code_simp
  have h2: "first (active_carts shop_one_line alice) = Some cart_one" by code_simp
  have ls: "cart_lines shop_one_line cart_one = [line_one]" by code_simp
  have h3: "cart_lines shop_one_line cart_one \<noteq> []" by (simp add: ls)
  have bk: "Book_get shop_one_line (item_book line_one) = Some book_a" by code_simp
  have q: "quantity line_one \<le> stock book_a" by code_simp
  have h4: "\<forall>l \<in> set (cart_lines shop_one_line cart_one).
              \<exists>b. Book_get shop_one_line (item_book l) = Some b \<and> quantity l \<le> stock b"
    using bk q by (simp add: ls)
  from place_order_succeeds [OF h1 h2 h3 h4]
  obtain d' where d': "OrderViews_post shop_one_line alice =
            (Response (JObj [(''message'', JStr ''The order placed''), (''status'', JStr ''Success'')])
               HTTP_200_OK, d')"
      "\<forall>l \<in> set (cart_lines shop_one_line cart_one). \<forall>b.
          Book_get shop_one_line (item_book l) = Some b \<longrightarrow>
          Book_get d' (item_book l) = Some (b\<lparr>stock := stock b - quantity l\<rparr>)"
      "\<forall>i. i \<notin> item_book ` set (cart_lines shop_one_line cart_one) \<longrightarrow>
            Book_get d' i = Book_get shop_one_line i"
      "CartModel_table d' =
         map (\<lambda>x. if cart_id x = cart_id cart_one then cart_one\<lparr>is_ordered := True\<rparr> else x)
           (CartModel_table shop_one_line)"
      "CartItems_table d' = CartItems_table shop_one_line"
    by blast
  have ib: "item_book line_one = 1" by (simp add: line_one_def)
  have b1: "Book_get d' 1 = Some (book_a\<lparr>stock := 2\<rparr>)"
    using d'(2) bk by (simp add: ls ib book_a_def line_one_def)
  have "Book_get shop_one_line 2 = Some book_b" by code_simp
  then have b2: "Book_get d' 2 = Some book_b"
    using d'(3) by (simp add: ls ib)
  have c1: "CartModel_table d' = [cart_one\<lparr>is_ordered := True\<rparr>]"
    using d'(4) by (simp add: shop_one_line_def)
  have i1: "CartItems_table d' = [line_one]"
    using d'(5) by (simp add: shop_one_line_def)
  show ?thesis using h1 h2 ls bk q d'(1) b1 b2 c1 i1 by blast
qed

end
